theory Spec2Isabelle
  imports Complex_Main
begin

section \<open>The training driver \<^verbatim>\<open>examples/pytorch/pagcn_nssc.py\<close>\<close>

text \<open>
  The script sequences calls into torch, torch.distributed, DGL, numpy and the packages
  PaGraph.data and PaGraph.model, none of which is part of this file. The embedding keeps the script's own control flow (the order of the calls, the two loops,
  the guards of the prints and of the checkpoint, the construction of the label vector) and
  takes the behaviour of every library call as a parameter: a function that, from the state
  of everything outside the script, either returns a value or raises, and leaves a new
  outside state. Every library call is recorded in a trace, and an exception is recorded
  at the place where it is raised. The script has no \<^verbatim>\<open>try\<close>, so an exception ends the
  function that is running: sequencing stops at the first error.
\<close>

subsection \<open>Values\<close>

text \<open>Exceptions. \<open>LibraryError n\<close> is any exception raised inside a library call.\<close>

datatype error =
  ValueError | IndexError | TypeError | MemoryError | FileExistsError | LibraryError nat

text \<open>A framework object (graph, tensor, module, optimizer, node flow) is a reference.\<close>

type_synonym obj = nat

text \<open>A Python float is kept as its bit pattern; the script only passes floats on, and
  the two operations applied to them (subtraction and \<^verbatim>\<open>np.mean\<close>) are parameters.\<close>

datatype pyfloat = Float64 nat

text \<open>The namespace returned by \<^verbatim>\<open>parser.parse_args()\<close> (lines 127-161), with
  \<^verbatim>\<open>--dataset\<close> defaulting to \<^verbatim>\<open>None\<close>.\<close>

record args =
  gpu :: string
  dataset :: "string option"
  feat_size :: int
  n_classes :: int
  dropout :: pyfloat
  n_hidden :: int
  n_layers :: int
  preprocess :: bool
  lr :: pyfloat
  n_epochs :: int
  batch_size :: int
  weight_decay :: pyfloat
  num_neighbors :: int
  ckpt :: string

text \<open>What the script prints.\<close>

datatype message =
    Launched int  \<comment> \<open>\<^verbatim>\<open>rank [{}] process successfully launches\<close>\<close>
  | Caching  \<comment> \<open>\<^verbatim>\<open>Caching data from remote server...\<close>\<close>
  | Start_training  \<comment> \<open>\<^verbatim>\<open>Done. Start Training...\<close>\<close>
  | Step_report int int pyfloat pyfloat
      \<comment> \<open>\<^verbatim>\<open>epoch [{}] step [{}]. Loss: {:.4f} Batch average time(s): {:.4f}\<close>\<close>
  | Epoch_report pyfloat  \<comment> \<open>\<^verbatim>\<open>Epoch average time: {:.4f}\<close>\<close>
  | Saving string  \<comment> \<open>\<^verbatim>\<open>saving to {}\<close>\<close>

text \<open>The calls the script makes, with their arguments; the object a call returned, for the
  calls that make or return a framework object; the sequence a new sampler holds; and the
  raising of an exception.\<close>

datatype event =
    Setenv string string  \<comment> \<open>\<^verbatim>\<open>os.environ[k] = v\<close>\<close>
  | Init_process_group string int int  \<comment> \<open>backend, rank, world size\<close>
  | Manual_seed int
  | Print message
  | Create_graph_from_store string string
  | Get_sub_train_graph string int
  | DGLGraph obj
  | Get_sub_train_nid string int
  | Get_sub_train_labels string int
  | Get_feat_from_server obj "int list" string
  | Tensor_cuda obj int
  | Set_ndata obj string obj
  | GCNSampling int int int int pyfloat bool
  | GCNInfer int int int int
  | CrossEntropyLoss
  | Adam obj pyfloat pyfloat
  | Module_cuda obj int  \<comment> \<open>the module moved, and the device\<close>
  | DistributedDataParallel obj "int list"
  | Torch_device int
  | Module_train obj
  | Time
  | NeighborSampler obj int int int "int list"
      \<comment> \<open>graph, batch size, number of neighbours, number of hops, seed nodes\<close>
  | Next_flow obj  \<comment> \<open>the sampler yields a node flow\<close>
  | Copy_from_parent obj
  | Layer_parent_nid obj int
  | Labels_cuda "int list" int
  | Forward obj obj  \<comment> \<open>the module called, and the node flow\<close>
  | Loss_fcn obj obj obj
  | Zero_grad obj
  | Backward obj
  | Optimizer_step obj
  | Loss_item obj
  | Torch_save obj string
  | Path_exists string
  | Mkdir string
  | Spawn int  \<comment> \<open>\<^verbatim>\<open>mp.spawn(trainer, args=(gpu_num, args), nprocs=gpu_num, join=True)\<close>\<close>
  | Returned event obj  \<comment> \<open>the call returned this object\<close>
  | Sampler_yields "obj list" "error option"
      \<comment> \<open>the sampler just made yields these node flows, then stops or raises\<close>
  | Raise error

subsection \<open>The world outside the script\<close>

text \<open>The state of torch's default random generator: the seed it was started from and
  the number of draws since. \<^verbatim>\<open>torch.manual_seed(s)\<close> restarts it from \<open>s\<close>.\<close>

datatype generator = Generator int nat

datatype file_kind = Directory | Regular_file

text \<open>\<open>ext\<close> is everything the script cannot see: devices, peers, the graph store,
  the clock, the partition files.\<close>

record 'x outside =
  ext :: 'x
  default_generator :: generator
  environ :: "string \<Rightarrow> string option"
  files :: "string \<Rightarrow> file_kind option"

type_synonym ('x, 'a) library = "'x outside \<Rightarrow> (error + 'a) \<times> 'x outside"

text \<open>The libraries. A call is identified by its event; the calls are grouped by the
  type of what they return. A sampler is a finite lazy sequence: the node flows it
  yields and, if its iteration ends by an exception, that exception. \<open>alloc n\<close> is the
  exception numpy raises when asked for a new array of \<open>n\<close> 64-bit integers, if the machine
  has no room for it.\<close>

record 'x env =
  ext_unit :: "event \<Rightarrow> ('x, unit) library"
  ext_obj :: "event \<Rightarrow> ('x, obj) library"
  ext_ints :: "event \<Rightarrow> ('x, int list) library"
  ext_float :: "event \<Rightarrow> ('x, pyfloat) library"
  ext_graph :: "event \<Rightarrow> ('x, obj \<times> int list) library"
  ext_flows :: "event \<Rightarrow> ('x, obj list \<times> error option) library"
  float_sub :: "pyfloat \<Rightarrow> pyfloat \<Rightarrow> pyfloat"
  float_mean :: "pyfloat list \<Rightarrow> pyfloat"
  alloc :: "nat \<Rightarrow> error option"

subsection \<open>Programs\<close>

text \<open>A program runs from an outside state and a trace, and ends with a value or an
  exception, in a new outside state and with a longer trace.\<close>

type_synonym 'x state = "'x outside \<times> event list"

type_synonym ('x, 'a) prog = "'x state \<Rightarrow> (error + 'a) \<times> 'x state"

definition ret :: "'a \<Rightarrow> ('x, 'a) prog" where
  "ret a = (\<lambda>s. (Inr a, s))"

definition raise :: "error \<Rightarrow> ('x, 'a) prog" where
  "raise e = (\<lambda>(out, tr). (Inl e, (out, tr @ [Raise e])))"

text \<open>Sequencing: an exception of the first part skips the rest.\<close>

definition and_then :: "('x, 'a) prog \<Rightarrow> ('a \<Rightarrow> ('x, 'b) prog) \<Rightarrow> ('x, 'b) prog" where
  "and_then m k = (\<lambda>s. case m s of (Inl e, s') \<Rightarrow> (Inl e, s') | (Inr a, s') \<Rightarrow> k a s')"

text \<open>A library call: the call is traced, then its outcome.\<close>

definition call :: "event \<Rightarrow> ('x, 'a) library \<Rightarrow> ('x, 'a) prog" where
  "call ev f = (\<lambda>(out, tr). case f out of
       (Inl e, out') \<Rightarrow> (Inl e, (out', tr @ [ev, Raise e]))
     | (Inr a, out') \<Rightarrow> (Inr a, (out', tr @ [ev])))"

text \<open>The result of a computation of the script itself (numpy indexing, a path function).\<close>

definition lift :: "error + 'a \<Rightarrow> ('x, 'a) prog" where
  "lift r = (case r of Inl e \<Rightarrow> raise e | Inr a \<Rightarrow> ret a)"

text \<open>A step of the script that is traced and does not raise.\<close>

definition emit :: "event \<Rightarrow> ('x, unit) prog" where
  "emit ev = (\<lambda>(out, tr). (Inr (), (out, tr @ [ev])))"

definition print :: "message \<Rightarrow> ('x, unit) prog" where
  "print msg = emit (Print msg)"

definition call_unit :: "'x env \<Rightarrow> event \<Rightarrow> ('x, unit) prog" where
  "call_unit env ev = call ev (ext_unit env ev)"

text \<open>A call that returns a framework object: the object is traced too.\<close>

definition call_obj :: "'x env \<Rightarrow> event \<Rightarrow> ('x, obj) prog" where
  "call_obj env ev =
     and_then (call ev (ext_obj env ev)) (\<lambda>h.
     and_then (emit (Returned ev h)) (\<lambda>_.
     ret h))"

definition call_ints :: "'x env \<Rightarrow> event \<Rightarrow> ('x, int list) prog" where
  "call_ints env ev = call ev (ext_ints env ev)"

definition call_float :: "'x env \<Rightarrow> event \<Rightarrow> ('x, pyfloat) prog" where
  "call_float env ev = call ev (ext_float env ev)"

definition call_graph :: "'x env \<Rightarrow> event \<Rightarrow> ('x, obj \<times> int list) prog" where
  "call_graph env ev = call ev (ext_graph env ev)"

text \<open>The call that makes a sampler: the sequence the sampler holds is traced too.\<close>

definition call_flows :: "'x env \<Rightarrow> event \<Rightarrow> ('x, obj list \<times> error option) prog" where
  "call_flows env ev =
     and_then (call ev (ext_flows env ev)) (\<lambda>(flows, fin).
     and_then (emit (Sampler_yields flows fin)) (\<lambda>_.
     ret (flows, fin)))"

definition setenv :: "string \<Rightarrow> string \<Rightarrow> ('x, unit) prog" where
  "setenv k v = (\<lambda>(out, tr).
     (Inr (), (out\<lparr>environ := (environ out)(k := Some v)\<rparr>, tr @ [Setenv k v])))"

definition manual_seed :: "int \<Rightarrow> ('x, unit) prog" where
  "manual_seed s = (\<lambda>(out, tr).
     (Inr (), (out\<lparr>default_generator := Generator s 0\<rparr>, tr @ [Manual_seed s])))"

text \<open>A \<^verbatim>\<open>for\<close> loop over a finite sequence, with the variables the body updates.\<close>

fun for_loop :: "'a list \<Rightarrow> ('a \<Rightarrow> 'v \<Rightarrow> ('x, 'v) prog) \<Rightarrow> 'v \<Rightarrow> ('x, 'v) prog" where
  "for_loop [] body v = ret v"
| "for_loop (x # xs) body v = and_then (body x v) (for_loop xs body)"

subsection \<open>\<^verbatim>\<open>init_process\<close> (lines 24-30)\<close>

definition init_process :: "'x env \<Rightarrow> int \<Rightarrow> int \<Rightarrow> string \<Rightarrow> ('x, unit) prog" where
  "init_process env rank world_size backend =
     and_then (setenv ''MASTER_ADDR'' ''127.0.0.1'') (\<lambda>_.
     and_then (setenv ''MASTER_PORT'' ''29501'') (\<lambda>_.
     and_then (call_unit env (Init_process_group backend rank world_size)) (\<lambda>_.
     and_then (manual_seed rank) (\<lambda>_.
     print (Launched rank)))))"

subsection \<open>The label vector (lines 44-47) and its lookup (line 101)\<close>

text \<open>
  Node ids and labels are the integers stored in the partition files, read by numpy as
  arrays of 64-bit signed integers (what numpy's own index functions produce), so
  \<^verbatim>\<open>np.max(train_nid) + 1\<close> is a 64-bit addition and wraps around at \<open>2 ^ 63\<close>.
  \<^verbatim>\<open>np.int\<close> is the alias of Python's \<^verbatim>\<open>int\<close> that numpy had when the script
  was written. The numpy calls are modelled by what they compute on one-dimensional
  integer arrays:
  \<^verbatim>\<open>np.max\<close> of an empty array raises ValueError; \<^verbatim>\<open>np.zeros(n)\<close> raises ValueError
  for a negative \<open>n\<close>, and whatever the allocator raises when there is no room for \<open>n\<close>
  integers; an index \<open>i\<close> into an array of length \<open>n\<close> is valid from \<open>-n\<close> to
  \<open>n - 1\<close>, a negative one counting from the end, and raises IndexError otherwise;
  \<^verbatim>\<open>a[idx] = vals\<close> needs as many values as indices, or a single value, and raises
  ValueError otherwise; it stores the values in order, so the last one stored at a
  repeated index stays.
\<close>

definition int64_add :: "int \<Rightarrow> int \<Rightarrow> int" where
  "int64_add x y = (x + y + 2 ^ 63) mod 2 ^ 64 - 2 ^ 63"

definition np_max :: "int list \<Rightarrow> error + int" where
  "np_max xs = (case xs of [] \<Rightarrow> Inl ValueError | x # rest \<Rightarrow> Inr (fold max rest x))"

definition np_zeros :: "(nat \<Rightarrow> error option) \<Rightarrow> int \<Rightarrow> error + int list" where
  "np_zeros allocator n =
     (if n < 0 then Inl ValueError
      else case allocator (nat n) of Some e \<Rightarrow> Inl e | None \<Rightarrow> Inr (replicate (nat n) 0))"

definition wrap_index :: "nat \<Rightarrow> int \<Rightarrow> error + nat" where
  "wrap_index n i =
     (if 0 \<le> i \<and> i < int n then Inr (nat i)
      else if - int n \<le> i \<and> i < 0 then Inr (nat (i + int n))
      else Inl IndexError)"

fun wrap_indices :: "nat \<Rightarrow> int list \<Rightarrow> error + nat list" where
  "wrap_indices n [] = Inr []"
| "wrap_indices n (i # idx) =
     (case wrap_index n i of
        Inl e \<Rightarrow> Inl e
      | Inr j \<Rightarrow> (case wrap_indices n idx of Inl e \<Rightarrow> Inl e | Inr js \<Rightarrow> Inr (j # js)))"

definition broadcast :: "nat \<Rightarrow> int list \<Rightarrow> error + int list" where
  "broadcast k vals =
     (if length vals = k then Inr vals
      else if length vals = 1 then Inr (replicate k (hd vals))
      else Inl ValueError)"

definition np_setitem :: "int list \<Rightarrow> int list \<Rightarrow> int list \<Rightarrow> error + int list" where
  "np_setitem a idx vals =
     (case broadcast (length idx) vals of
        Inl e \<Rightarrow> Inl e
      | Inr vs \<Rightarrow>
          (case wrap_indices (length a) idx of
             Inl e \<Rightarrow> Inl e
           | Inr js \<Rightarrow> Inr (fold (\<lambda>(j, v) b. b[j := v]) (zip js vs) a)))"

text \<open>\<^verbatim>\<open>labels = np.zeros(np.max(train_nid) + 1, dtype=np.int); labels[train_nid] = sub_labels\<close>\<close>

definition build_labels ::
  "(nat \<Rightarrow> error option) \<Rightarrow> int list \<Rightarrow> int list \<Rightarrow> error + int list" where
  "build_labels allocator train_nid sub_labels =
     (case np_max train_nid of
        Inl e \<Rightarrow> Inl e
      | Inr m \<Rightarrow>
          (case np_zeros allocator (int64_add m 1) of
             Inl e \<Rightarrow> Inl e
           | Inr labels \<Rightarrow> np_setitem labels train_nid sub_labels))"

text \<open>\<^verbatim>\<open>labels[batch_nids]\<close>, on the tensor made of the label vector.\<close>

definition index_labels :: "int list \<Rightarrow> int list \<Rightarrow> error + int list" where
  "index_labels labels batch_nids =
     (case wrap_indices (length labels) batch_nids of
        Inl e \<Rightarrow> Inl e
      | Inr js \<Rightarrow> Inr (map (\<lambda>j. labels ! j) js))"

subsection \<open>Paths and formatting\<close>

text \<open>\<^verbatim>\<open>os.path.basename\<close>: what follows the last slash.\<close>

definition basename :: "string \<Rightarrow> string" where
  "basename p = rev (takeWhile (\<lambda>c. c \<noteq> CHR ''/'') (rev p))"

text \<open>\<^verbatim>\<open>os.path.join\<close> of two components.\<close>

definition path_join :: "string \<Rightarrow> string \<Rightarrow> string" where
  "path_join a b =
     (if b \<noteq> [] \<and> hd b = CHR ''/'' then b
      else if a = [] \<or> last a = CHR ''/'' then a @ b
      else a @ ''/'' @ b)"

text \<open>\<^verbatim>\<open>'{}'.format(n)\<close> for an integer.\<close>

fun str_nat :: "nat \<Rightarrow> string" where
  "str_nat n =
     (if n < 10 then [''0123456789'' ! n]
      else str_nat (n div 10) @ [''0123456789'' ! (n mod 10)])"

definition str_int :: "int \<Rightarrow> string" where
  "str_int i = (if i < 0 then CHR ''-'' # str_nat (nat (- i)) else str_nat (nat i))"

text \<open>\<^verbatim>\<open>s.split(sep)\<close> for a one-character separator.\<close>

fun split :: "char \<Rightarrow> string \<Rightarrow> string list" where
  "split sep [] = [[]]"
| "split sep (c # cs) =
     (if c = sep then [] # split sep cs
      else (case split sep cs of [] \<Rightarrow> [[c]] | p # ps \<Rightarrow> (c # p) # ps))"

text \<open>\<^verbatim>\<open>range(n)\<close>\<close>

definition range_list :: "int \<Rightarrow> int list" where
  "range_list n = [0..n - 1]"

subsection \<open>\<^verbatim>\<open>trainer\<close> (lines 33-123)\<close>

text \<open>The body of the loop over the sampler (lines 98-114), for the node flow \<open>nf\<close>.
  The loop updates \<^verbatim>\<open>step\<close> and \<^verbatim>\<open>batch_dur\<close>.\<close>

definition trainer_step ::
  "'x env \<Rightarrow> int \<Rightarrow> int list \<Rightarrow> obj \<Rightarrow> obj \<Rightarrow> obj \<Rightarrow> int \<Rightarrow> obj \<Rightarrow>
   int \<times> pyfloat list \<Rightarrow> ('x, int \<times> pyfloat list) prog" where
  "trainer_step env rank labels model loss_fcn optimizer epoch nf = (\<lambda>(step, batch_dur).
     and_then (call_float env Time) (\<lambda>batch_start_time.
     and_then (call_unit env (Copy_from_parent nf)) (\<lambda>_.
     and_then (call_ints env (Layer_parent_nid nf (- 1))) (\<lambda>batch_nids.
     and_then (lift (index_labels labels batch_nids)) (\<lambda>label.
     and_then (call_obj env (Labels_cuda label rank)) (\<lambda>label.
     and_then (call_obj env (Forward model nf)) (\<lambda>pred.
     and_then (call_obj env (Loss_fcn loss_fcn pred label)) (\<lambda>loss.
     and_then (call_unit env (Zero_grad optimizer)) (\<lambda>_.
     and_then (call_unit env (Backward loss)) (\<lambda>_.
     and_then (call_unit env (Optimizer_step optimizer)) (\<lambda>_.
     and_then (call_float env Time) (\<lambda>now.
     and_then
       (if rank = 0 \<and> (step + 1) mod 20 = 0 then
          and_then (call_float env (Loss_item loss)) (\<lambda>l.
          print (Step_report (epoch + 1) (step + 1) l
                   (float_mean env (batch_dur @ [float_sub env now batch_start_time]))))
        else ret ()) (\<lambda>_.
     ret (step + 1, batch_dur @ [float_sub env now batch_start_time]))))))))))))))"

text \<open>The loop over the sampler (lines 90-114): each node flow the sampler yields is
  trained on; the loop ends when the sampler is exhausted, or by the exception that ends
  the sampler's iteration.\<close>

definition sampler_loop ::
  "'x env \<Rightarrow> int \<Rightarrow> int list \<Rightarrow> obj \<Rightarrow> obj \<Rightarrow> obj \<Rightarrow> int \<Rightarrow> obj list \<Rightarrow> error option \<Rightarrow>
   int \<times> pyfloat list \<Rightarrow> ('x, int \<times> pyfloat list) prog" where
  "sampler_loop env rank labels model loss_fcn optimizer epoch flows fin v =
     and_then
       (for_loop flows
          (\<lambda>nf v. and_then (emit (Next_flow nf)) (\<lambda>_.
                   trainer_step env rank labels model loss_fcn optimizer epoch nf v)) v)
       (\<lambda>v. case fin of None \<Rightarrow> ret v | Some e \<Rightarrow> raise e)"

text \<open>Saving after several epochs (lines 119-123). \<open>model_module\<close> is \<^verbatim>\<open>model.module\<close>, the
  module wrapped for gradient synchronisation.\<close>

definition checkpoint_path :: "args \<Rightarrow> int \<Rightarrow> string" where
  "checkpoint_path a epoch = path_join (ckpt a) (''gcn-nssc_'' @ str_int (epoch + 1))"

definition checkpoint :: "'x env \<Rightarrow> int \<Rightarrow> args \<Rightarrow> obj \<Rightarrow> int \<Rightarrow> ('x, unit) prog" where
  "checkpoint env rank a model_module epoch =
     (if (epoch + 1) mod 5 = 0 \<and> rank = 0 then
        and_then (print (Saving (checkpoint_path a epoch))) (\<lambda>_.
        call_unit env (Torch_save model_module (checkpoint_path a epoch)))
      else ret ())"

text \<open>The body of the loop over the epochs (lines 87-123). The loop updates
  \<^verbatim>\<open>epoch_dur\<close> and \<^verbatim>\<open>batch_dur\<close>; \<^verbatim>\<open>step\<close> restarts at 0.\<close>

definition trainer_epoch ::
  "'x env \<Rightarrow> int \<Rightarrow> args \<Rightarrow> obj \<Rightarrow> int list \<Rightarrow> int list \<Rightarrow> obj \<Rightarrow> obj \<Rightarrow> obj \<Rightarrow> obj \<Rightarrow> int \<Rightarrow>
   int \<Rightarrow> pyfloat list \<times> pyfloat list \<Rightarrow> ('x, pyfloat list \<times> pyfloat list) prog" where
  "trainer_epoch env rank a g train_nid labels model model_module loss_fcn optimizer num_hops epoch =
     (\<lambda>(epoch_dur, batch_dur).
     and_then (call_unit env (Module_train model)) (\<lambda>_.
     and_then (call_float env Time) (\<lambda>epoch_start_time.
     and_then (call_flows env
                 (NeighborSampler g (batch_size a) (num_neighbors a) num_hops train_nid))
       (\<lambda>(flows, fin).
     and_then (sampler_loop env rank labels model loss_fcn optimizer epoch flows fin
                 (0, batch_dur)) (\<lambda>(step, batch_dur).
     and_then
       (if rank = 0 then
          and_then (call_float env Time) (\<lambda>now.
          and_then (print (Epoch_report
                      (float_mean env (drop 2 (epoch_dur @ [float_sub env now epoch_start_time])))))
            (\<lambda>_.
          ret (epoch_dur @ [float_sub env now epoch_start_time])))
        else ret epoch_dur) (\<lambda>epoch_dur.
     and_then (checkpoint env rank a model_module epoch) (\<lambda>_.
     ret (epoch_dur, batch_dur))))))))"

text \<open>The number of hops given to the sampler (line 61).\<close>

definition num_hops :: "args \<Rightarrow> int" where
  "num_hops a = (if preprocess a then n_layers a else n_layers a)"

text \<open>Lines 84-123, once the data and the modules are there.\<close>

definition trainer_loop ::
  "'x env \<Rightarrow> int \<Rightarrow> args \<Rightarrow> obj \<Rightarrow> int list \<Rightarrow> int list \<Rightarrow> obj \<Rightarrow> obj \<Rightarrow> obj \<Rightarrow> obj \<Rightarrow>
   ('x, unit) prog" where
  "trainer_loop env rank a g train_nid labels model model_module loss_fcn optimizer =
     and_then
       (for_loop (range_list (n_epochs a))
          (trainer_epoch env rank a g train_nid labels model model_module loss_fcn optimizer
             (num_hops a))
          ([], []))
       (\<lambda>_. ret ())"

text \<open>Lines 35-81: the process group, the partition, the features and the modules.
  \<^verbatim>\<open>os.path.basename(None)\<close> raises TypeError. The conversions
  \<^verbatim>\<open>torch.LongTensor(t2fid)\<close> and \<^verbatim>\<open>torch.LongTensor(labels)\<close> keep the values.
  The result is what the loop uses: \<^verbatim>\<open>g\<close>, \<^verbatim>\<open>train_nid\<close>, \<^verbatim>\<open>labels\<close>, \<^verbatim>\<open>model\<close>,
  \<^verbatim>\<open>model.module\<close>, \<^verbatim>\<open>loss_fcn\<close> and \<^verbatim>\<open>optimizer\<close>.\<close>

definition trainer_setup ::
  "'x env \<Rightarrow> int \<Rightarrow> int \<Rightarrow> args \<Rightarrow> string \<Rightarrow>
   ('x, obj \<times> int list \<times> int list \<times> obj \<times> obj \<times> obj \<times> obj) prog" where
  "trainer_setup env rank world_size a backend =
     and_then (init_process env rank world_size backend) (\<lambda>_.
     and_then (lift (case dataset a of None \<Rightarrow> Inl TypeError | Some p \<Rightarrow> Inr p)) (\<lambda>path.
     and_then (call_obj env (Create_graph_from_store (basename path) ''shared_mem''))
       (\<lambda>remote_g.
     and_then (call_graph env (Get_sub_train_graph path rank)) (\<lambda>(adj, t2fid).
     and_then (call_obj env (DGLGraph adj)) (\<lambda>g.
     and_then (call_ints env (Get_sub_train_nid path rank)) (\<lambda>train_nid.
     and_then (call_ints env (Get_sub_train_labels path rank)) (\<lambda>sub_labels.
     and_then (lift (build_labels (alloc env) train_nid sub_labels)) (\<lambda>labels.
     and_then (print Caching) (\<lambda>_.
     and_then (call_obj env (Get_feat_from_server remote_g t2fid ''features'')) (\<lambda>fetched.
     and_then (call_obj env (Tensor_cuda fetched rank)) (\<lambda>features.
     and_then (call_obj env (Get_feat_from_server remote_g t2fid ''norm'')) (\<lambda>fetched.
     and_then (call_obj env (Tensor_cuda fetched rank)) (\<lambda>norm.
     and_then (call_unit env (Set_ndata g ''features'' features)) (\<lambda>_.
     and_then (call_unit env (Set_ndata g ''norm'' norm)) (\<lambda>_.
     and_then (print Start_training) (\<lambda>_.
     and_then (call_obj env (GCNSampling (feat_size a) (n_hidden a) (n_classes a) (n_layers a)
                 (dropout a) (preprocess a))) (\<lambda>model_module.
     and_then (call_obj env (GCNInfer (feat_size a) (n_hidden a) (n_classes a) (n_layers a)))
       (\<lambda>infer_model.
     and_then (call_obj env CrossEntropyLoss) (\<lambda>loss_fcn.
     and_then (call_obj env (Adam model_module (lr a) (weight_decay a))) (\<lambda>optimizer.
     and_then (call_unit env (Module_cuda model_module rank)) (\<lambda>_.
     and_then (call_unit env (Module_cuda infer_model rank)) (\<lambda>_.
     and_then (call_obj env (DistributedDataParallel model_module [rank])) (\<lambda>model.
     and_then (call_obj env (Torch_device rank)) (\<lambda>ctx.
     ret (g, train_nid, labels, model, model_module, loss_fcn, optimizer)
     ))))))))))))))))))))))))"

text \<open>The whole worker.\<close>

definition trainer :: "'x env \<Rightarrow> int \<Rightarrow> int \<Rightarrow> args \<Rightarrow> string \<Rightarrow> ('x, unit) prog" where
  "trainer env rank world_size a backend =
     and_then (trainer_setup env rank world_size a backend)
       (\<lambda>(g, train_nid, labels, model, model_module, loss_fcn, optimizer).
          trainer_loop env rank a g train_nid labels model model_module loss_fcn optimizer)"

subsection \<open>The launcher (lines 161-169)\<close>

text \<open>\<^verbatim>\<open>os.path.exists\<close> is true of any existing path, directory or not. \<^verbatim>\<open>os.mkdir\<close>
  raises FileExistsError on an existing path, may fail for a reason outside the script
  (a missing parent, a permission), and otherwise leaves a directory.\<close>

definition os_path_exists :: "string \<Rightarrow> ('x, bool) prog" where
  "os_path_exists p = call (Path_exists p) (\<lambda>out. (Inr (files out p \<noteq> None), out))"

definition os_mkdir :: "'x env \<Rightarrow> string \<Rightarrow> ('x, unit) prog" where
  "os_mkdir env p = call (Mkdir p) (\<lambda>out.
     if files out p \<noteq> None then (Inl FileExistsError, out)
     else (case ext_unit env (Mkdir p) out of
             (Inl e, out') \<Rightarrow> (Inl e, out')
           | (Inr _, out') \<Rightarrow> (Inr (), out'\<lparr>files := (files out')(p := Some Directory)\<rparr>)))"

text \<open>Line 164: \<^verbatim>\<open>gpu_num = len(args.gpu.split(','))\<close>\<close>

definition gpu_num :: "args \<Rightarrow> int" where
  "gpu_num a = int (length (split (CHR '','') (gpu a)))"

text \<open>Lines 163-167: what the launcher does before it spawns; the result is \<^verbatim>\<open>gpu_num\<close>.\<close>

definition main_setup :: "'x env \<Rightarrow> args \<Rightarrow> ('x, int) prog" where
  "main_setup env a =
     and_then (setenv ''CUDA_VISIBLE_DEVICES'' (gpu a)) (\<lambda>_.
     and_then (os_path_exists (ckpt a)) (\<lambda>found.
     and_then (if \<not> found then os_mkdir env (ckpt a) else ret ()) (\<lambda>_.
     ret (gpu_num a))))"

text \<open>Line 169: the workers are spawned, \<^verbatim>\<open>trainer(i, gpu_num, args)\<close> for each \<open>i\<close> of
  \<^verbatim>\<open>range(gpu_num)\<close>, and joined.\<close>

definition main :: "'x env \<Rightarrow> args \<Rightarrow> ('x, unit) prog" where
  "main env a = and_then (main_setup env a) (\<lambda>gpu_num. call_unit env (Spawn gpu_num))"

text \<open>The worker of rank \<open>i\<close> that \<^verbatim>\<open>mp.spawn\<close> starts: \<^verbatim>\<open>backend\<close> keeps its default.\<close>

definition worker :: "'x env \<Rightarrow> args \<Rightarrow> int \<Rightarrow> ('x, unit) prog" where
  "worker env a i = trainer env i (gpu_num a) a ''nccl''"

subsection \<open>Runs\<close>

text \<open>A run starts with an empty trace. Its outcome, its trace and the outside state it
  leaves.\<close>

definition run_result :: "('x, 'a) prog \<Rightarrow> 'x outside \<Rightarrow> error + 'a" where
  "run_result m out = fst (m (out, []))"

definition run_trace :: "('x, 'a) prog \<Rightarrow> 'x outside \<Rightarrow> event list" where
  "run_trace m out = snd (snd (m (out, [])))"

definition run_outside :: "('x, 'a) prog \<Rightarrow> 'x outside \<Rightarrow> 'x outside" where
  "run_outside m out = fst (snd (m (out, [])))"

text \<open>Every event a program adds to the trace satisfies \<open>P\<close>, however the run ends.\<close>

definition only :: "(event \<Rightarrow> bool) \<Rightarrow> ('x, 'a) prog \<Rightarrow> bool" where
  "only P m \<longleftrightarrow>
     (\<forall>out tr r out' tr'. m (out, tr) = (r, (out', tr')) \<longrightarrow>
        (\<exists>evs. tr' = tr @ evs \<and> list_all P evs))"

text \<open>What holds of every event of a worker of rank \<open>rank\<close> run with the arguments \<open>a\<close>\<close>

fun basic_event :: "int \<Rightarrow> args \<Rightarrow> event \<Rightarrow> bool" where
  "basic_event rank a (Print (Step_report e s l t)) = (rank = 0 \<and> s mod 20 = 0)"
| "basic_event rank a (Print (Epoch_report t)) = (rank = 0)"
| "basic_event rank a (Print (Saving p)) = (rank = 0)"
| "basic_event rank a (Loss_item l) = (rank = 0)"
| "basic_event rank a (Torch_save m p) = (rank = 0)"
| "basic_event rank a (Manual_seed s) = (s = rank)"
| "basic_event rank a (NeighborSampler g bs nn h seeds) =
     (bs = batch_size a \<and> nn = num_neighbors a \<and> h = n_layers a)"
| "basic_event rank a (Path_exists p) = False"
| "basic_event rank a (Mkdir p) = False"
| "basic_event rank a (Spawn n) = False"
| "basic_event rank a _ = True"

text \<open>and of every event of the epochs \<open>epochs\<close>.\<close>

fun saved_in :: "args \<Rightarrow> int list \<Rightarrow> event \<Rightarrow> bool" where
  "saved_in a epochs (Print (Saving p)) =
     (\<exists>epoch \<in> set epochs. (epoch + 1) mod 5 = 0 \<and> p = checkpoint_path a epoch)"
| "saved_in a epochs (Torch_save m p) =
     (\<exists>epoch \<in> set epochs. (epoch + 1) mod 5 = 0 \<and> p = checkpoint_path a epoch)"
| "saved_in a epochs (Print (Step_report e s l t)) = (\<exists>epoch \<in> set epochs. e = epoch + 1)"
| "saved_in a epochs _ = True"

definition epoch_event :: "int \<Rightarrow> args \<Rightarrow> int list \<Rightarrow> event \<Rightarrow> bool" where
  "epoch_event rank a epochs ev \<longleftrightarrow> basic_event rank a ev \<and> saved_in a epochs ev"

subsection \<open>A small world to run the script in\<close>

text \<open>The partition files hold the training node ids and their labels; every library
  call succeeds; the sampler yields one node flow for each batch of seed nodes.\<close>

definition demo_args :: args where
  "demo_args = \<lparr>gpu = ''0'', dataset = Some ''data/reddit'', feat_size = 300, n_classes = 60,
     dropout = Float64 0, n_hidden = 32, n_layers = 1, preprocess = False, lr = Float64 0,
     n_epochs = 5, batch_size = 2, weight_decay = Float64 0, num_neighbors = 2,
     ckpt = ''checkpoint''\<rparr>"

definition demo_env :: "(int list \<times> int list) env" where
  "demo_env = \<lparr>
     ext_unit = (\<lambda>ev out. (Inr (), out)),
     ext_obj = (\<lambda>ev out. (Inr (case ev of GCNSampling _ _ _ _ _ _ \<Rightarrow> 5 | GCNInfer _ _ _ _ \<Rightarrow> 6
                                   | DistributedDataParallel _ _ \<Rightarrow> 7 | _ \<Rightarrow> 1), out)),
     ext_ints = (\<lambda>ev out. (Inr (case ev of Get_sub_train_nid _ _ \<Rightarrow> fst (ext out)
                                   | Get_sub_train_labels _ _ \<Rightarrow> snd (ext out)
                                   | Layer_parent_nid _ _ \<Rightarrow> take 1 (fst (ext out))
                                   | _ \<Rightarrow> []), out)),
     ext_float = (\<lambda>ev out. (Inr (Float64 0), out)),
     ext_graph = (\<lambda>ev out. (Inr (2, [10, 11, 12, 13]), out)),
     ext_flows = (\<lambda>ev out. (Inr (case ev of
                     NeighborSampler g bs nn h seeds \<Rightarrow>
                       if 0 < bs then [20 ..< 20 + nat ((int (length seeds) + bs - 1) div bs)]
                       else []
                   | _ \<Rightarrow> [], None), out)),
     float_sub = (\<lambda>a b. Float64 0),
     float_mean = (\<lambda>xs. Float64 0),
     alloc = (\<lambda>n. None)\<rparr>"

definition demo_outside :: "(int list \<times> int list) outside" where
  "demo_outside = \<lparr>ext = ([0, 2, 3], [5, 6, 7]), default_generator = Generator 42 7,
     environ = (\<lambda>_. None), files = (\<lambda>_. None)\<rparr>"

text \<open>Twenty training nodes and batches of one node: an epoch of twenty steps.\<close>

definition demo_args_20 :: args where
  "demo_args_20 = demo_args\<lparr>n_epochs := 1, batch_size := 1\<rparr>"

definition demo_outside_20 :: "(int list \<times> int list) outside" where
  "demo_outside_20 = demo_outside\<lparr>ext := (map int [0 ..< 20], replicate 20 1)\<rparr>"

definition demo_args_1 :: args where
  "demo_args_1 = demo_args\<lparr>n_epochs := 1\<rparr>"

text \<open>Every run of the program that ends without an exception has traced an event
  satisfying \<open>P\<close>.\<close>

definition reaches :: "(event \<Rightarrow> bool) \<Rightarrow> ('x, 'a) prog \<Rightarrow> bool" where
  "reaches P m \<longleftrightarrow>
     (\<forall>out tr a out' tr'. m (out, tr) = (Inr a, (out', tr')) \<longrightarrow> (\<exists>ev \<in> set tr'. P ev))"

declare str_nat.simps [simp del]

subsection \<open>The phases of the training loop\<close>

text \<open>What the trace shows of an epoch: a sampler is made, which holds a sequence of node
  flows; then, for a mini-batch, the sampler yields a node flow, the model is called on
  it, the loss is back-propagated, the optimizer steps.\<close>

datatype phase =
  New_sampler "obj list" | Batch_sample obj | Forward_pass obj | Backward_pass | Optimizer_update

fun phase_of :: "event \<Rightarrow> phase list" where
  "phase_of (Sampler_yields flows fin) = [New_sampler flows]"
| "phase_of (Next_flow nf) = [Batch_sample nf]"
| "phase_of (Forward m nf) = [Forward_pass nf]"
| "phase_of (Backward l) = [Backward_pass]"
| "phase_of (Optimizer_step opt) = [Optimizer_update]"
| "phase_of _ = []"

definition phases :: "event list \<Rightarrow> phase list" where
  "phases tr = concat (map phase_of tr)"

text \<open>The sequences of node flows held by the samplers made in a trace, one sequence for
  each sampler, in the order the samplers were made.\<close>

fun sequences_of :: "event \<Rightarrow> obj list list" where
  "sequences_of (Sampler_yields flows fin) = [flows]"
| "sequences_of _ = []"

definition sampler_sequences :: "event list \<Rightarrow> obj list list" where
  "sampler_sequences tr = concat (map sequences_of tr)"

text \<open>The mini-batch of the node flow \<open>nf\<close>, and the epoch of a sampler that holds the
  node flows \<open>flows\<close>: a mini-batch for each of them, in their order.\<close>

definition mini_batch :: "obj \<Rightarrow> phase list" where
  "mini_batch nf = [Batch_sample nf, Forward_pass nf, Backward_pass, Optimizer_update]"

definition epoch_phases :: "obj list \<Rightarrow> phase list" where
  "epoch_phases flows = New_sampler flows # concat (map mini_batch flows)"

text \<open>A program that makes no sampler and goes through the phases \<open>ps\<close>: all of them if
  it ends without an exception, the first of them otherwise.\<close>

definition conforms :: "phase list \<Rightarrow> ('x, 'a) prog \<Rightarrow> bool" where
  "conforms ps m \<longleftrightarrow>
     (\<forall>out tr r out' tr'. m (out, tr) = (r, (out', tr')) \<longrightarrow>
        (\<exists>evs. tr' = tr @ evs \<and> sampler_sequences evs = []
           \<and> (case r of
                Inr a \<Rightarrow> phases evs = ps
              | Inl e \<Rightarrow> \<exists>rest. ps = phases evs @ rest)))"

text \<open>A program that makes \<open>n\<close> samplers and goes through the epoch of each, one epoch after
  the other; if it ends by an exception it has made any number of samplers, and gone
  through the first phases of their epochs.\<close>

definition trains :: "nat \<Rightarrow> ('x, 'a) prog \<Rightarrow> bool" where
  "trains n m \<longleftrightarrow>
     (\<forall>out tr r out' tr'. m (out, tr) = (r, (out', tr')) \<longrightarrow>
        (\<exists>evs. tr' = tr @ evs
           \<and> (case r of
                Inr a \<Rightarrow> phases evs = concat (map epoch_phases (sampler_sequences evs))
                        \<and> length (sampler_sequences evs) = n
              | Inl e \<Rightarrow> \<exists>rest. concat (map epoch_phases (sampler_sequences evs))
                                  = phases evs @ rest)))"

text \<open>The contract of the neighbour sampler, an external collaborator: over \<open>n\<close> seed
  nodes and with a positive batch size \<open>b\<close> it yields \<open>\<lceil>n / b\<rceil>\<close> node flows.\<close>

definition sampler_yields_ceil :: "'x env \<Rightarrow> bool" where
  "sampler_yields_ceil env \<longleftrightarrow>
     (\<forall>g bs nn h seeds out flows fin out'.
        ext_flows env (NeighborSampler g bs nn h seeds) out = (Inr (flows, fin), out') \<longrightarrow>
        0 < bs \<longrightarrow> int (length flows) = \<lceil>real (length seeds) / real_of_int bs\<rceil>)"

text \<open>Every sampler holds \<open>c\<close> node flows.\<close>

fun sampler_holds :: "int \<Rightarrow> event \<Rightarrow> bool" where
  "sampler_holds c (Sampler_yields flows fin) = (int (length flows) = c)"
| "sampler_holds c _ = True"

text \<open>The number of optimizer steps in a trace.\<close>

fun is_optimizer_step :: "event \<Rightarrow> bool" where
  "is_optimizer_step (Optimizer_step opt) = True"
| "is_optimizer_step _ = False"

definition optimizer_steps :: "event list \<Rightarrow> nat" where
  "optimizer_steps tr = length (filter is_optimizer_step tr)"

subsection \<open>Exceptions\<close>




text \<open>Every run of the program that ends without an exception leaves an outside state
  satisfying \<open>Q\<close>.\<close>

definition establishes :: "('x outside \<Rightarrow> bool) \<Rightarrow> ('x, 'a) prog \<Rightarrow> bool" where
  "establishes Q m \<longleftrightarrow> (\<forall>s a out' tr'. m s = (Inr a, (out', tr')) \<longrightarrow> Q out')"

text \<open>A world where the path given as the checkpoint directory is a regular file.\<close>

definition file_outside :: "(int list \<times> int list) outside" where
  "file_outside = demo_outside\<lparr>files := (\<lambda>p. if p = ''checkpoint'' then Some Regular_file else None)\<rparr>"

text \<open>The outside state after line 163.\<close>

definition cuda_env :: "'x outside \<Rightarrow> args \<Rightarrow> 'x outside" where
  "cuda_env out a = out\<lparr>environ := (environ out)(''CUDA_VISIBLE_DEVICES'' := Some (gpu a))\<rparr>"

section \<open>Properties\<close>

subsection \<open>What a worker can add to its trace\<close>

lemma only_ret: "only P (ret a)"
  by (simp add: only_def ret_def)

lemma only_raise: "P (Raise e) \<Longrightarrow> only P (raise e)"
  by (auto simp add: only_def raise_def)

lemma only_emit: "P ev \<Longrightarrow> only P (emit ev)"
  by (auto simp add: only_def emit_def)

lemma only_call: "P ev \<Longrightarrow> (\<And>e. P (Raise e)) \<Longrightarrow> only P (call ev f)"
  by (auto simp add: only_def call_def split: prod.splits sum.splits)

lemma only_and_then:
  assumes "only P m" and "\<And>a. only P (k a)"
  shows "only P (and_then m k)"
  unfolding only_def
proof (intro allI impI)
  fix out tr r out' tr'
  assume run: "and_then m k (out, tr) = (r, (out', tr'))"
  obtain r1 out1 tr1 where m: "m (out, tr) = (r1, (out1, tr1))"
    by (metis prod.exhaust)
  from assms(1) m obtain evs1 where e1: "tr1 = tr @ evs1" "list_all P evs1"
    unfolding only_def by blast
  show "\<exists>evs. tr' = tr @ evs \<and> list_all P evs"
  proof (cases r1)
    case (Inl e)
    with run m have "tr' = tr1" by (simp add: and_then_def)
    with e1 show ?thesis by blast
  next
    case (Inr a)
    with run m have "k a (out1, tr1) = (r, (out', tr'))" by (simp add: and_then_def)
    with assms(2)[of a] obtain evs2 where "tr' = tr1 @ evs2" "list_all P evs2"
      unfolding only_def by blast
    with e1 have "tr' = tr @ (evs1 @ evs2) \<and> list_all P (evs1 @ evs2)" by simp
    then show ?thesis by blast
  qed
qed

lemma only_for_loop:
  assumes "\<And>x v. x \<in> set xs \<Longrightarrow> only P (body x v)"
  shows "only P (for_loop xs body v)"
  using assms
proof (induction xs arbitrary: v)
  case Nil
  show ?case by (simp add: only_ret)
next
  case (Cons x xs)
  show ?case by (simp add: only_and_then Cons)
qed

lemma only_lift: "(\<And>e. P (Raise e)) \<Longrightarrow> only P (lift r)"
  by (cases r) (simp_all add: lift_def only_ret only_raise)

lemma only_weaken: "only P m \<Longrightarrow> (\<And>ev. P ev \<Longrightarrow> Q ev) \<Longrightarrow> only Q m"
  unfolding only_def list_all_iff by blast

lemma only_if: "(c \<Longrightarrow> only P m) \<Longrightarrow> (\<not> c \<Longrightarrow> only P n) \<Longrightarrow> only P (if c then m else n)"
  by simp

lemma only_call_unit: "P ev \<Longrightarrow> (\<And>e. P (Raise e)) \<Longrightarrow> only P (call_unit env ev)"
  by (simp add: call_unit_def only_call)

lemma only_call_obj:
  "P ev \<Longrightarrow> (\<And>h. P (Returned ev h)) \<Longrightarrow> (\<And>e. P (Raise e)) \<Longrightarrow> only P (call_obj env ev)"
  by (simp add: call_obj_def only_call only_and_then only_emit only_ret)

lemma only_call_ints: "P ev \<Longrightarrow> (\<And>e. P (Raise e)) \<Longrightarrow> only P (call_ints env ev)"
  by (simp add: call_ints_def only_call)

lemma only_call_float: "P ev \<Longrightarrow> (\<And>e. P (Raise e)) \<Longrightarrow> only P (call_float env ev)"
  by (simp add: call_float_def only_call)

lemma only_call_graph: "P ev \<Longrightarrow> (\<And>e. P (Raise e)) \<Longrightarrow> only P (call_graph env ev)"
  by (simp add: call_graph_def only_call)

lemma only_call_flows:
  "P ev \<Longrightarrow> (\<And>flows fin. P (Sampler_yields flows fin)) \<Longrightarrow> (\<And>e. P (Raise e)) \<Longrightarrow>
   only P (call_flows env ev)"
  unfolding call_flows_def
  by (intro only_and_then only_call) (simp_all add: only_and_then only_emit only_ret split: prod.splits)

lemma only_print: "P (Print msg) \<Longrightarrow> only P (print msg)"
  by (simp add: print_def only_emit)

lemma only_setenv: "P (Setenv k v) \<Longrightarrow> only P (setenv k v)"
  by (auto simp add: only_def setenv_def)

lemma only_manual_seed: "P (Manual_seed s) \<Longrightarrow> only P (manual_seed s)"
  by (auto simp add: only_def manual_seed_def)

lemma only_case_prod: "(\<And>x y. only P (f x y)) \<Longrightarrow> only P (case p of (x, y) \<Rightarrow> f x y)"
  by (cases p) simp

lemma only_case_option:
  "only P m \<Longrightarrow> (\<And>x. only P (f x)) \<Longrightarrow> only P (case opt of None \<Rightarrow> m | Some x \<Rightarrow> f x)"
  by (cases opt) simp_all

lemmas only_intros =
  only_ret only_raise only_emit only_call_unit only_call_obj only_call_ints only_call_float
  only_call_graph only_call_flows only_and_then only_lift only_print only_setenv
  only_manual_seed only_case_prod only_case_option only_if

lemma and_then_InrD:
  assumes "and_then m k s = (Inr b, s')"
  shows "\<exists>a s1. m s = (Inr a, s1) \<and> k a s1 = (Inr b, s')"
proof -
  obtain r1 s1 where m: "m s = (r1, s1)" by (metis prod.exhaust)
  with assms show ?thesis by (cases r1) (simp_all add: and_then_def)
qed

lemma run_collapse:
  "m (out, []) = (run_result m out, (run_outside m out, run_trace m out))"
  by (simp add: run_result_def run_outside_def run_trace_def)

lemma only_run_trace: "only P m \<Longrightarrow> ev \<in> set (run_trace m out) \<Longrightarrow> P ev"
  unfolding only_def run_trace_def list_all_iff
  by (metis append_Nil prod.collapse)

lemma only_init_process:
  "only (epoch_event rank a epochs) (init_process env rank world_size backend)"
  unfolding init_process_def
  by (intro only_intros) (simp_all add: epoch_event_def)

lemma only_trainer_step:
  "only (epoch_event rank a [epoch])
     (trainer_step env rank labels model loss_fcn optimizer epoch nf v)"
  unfolding trainer_step_def
  by (intro only_intros) (simp_all add: epoch_event_def)

lemma only_sampler_loop:
  "only (epoch_event rank a [epoch])
     (sampler_loop env rank labels model loss_fcn optimizer epoch flows fin v)"
  unfolding sampler_loop_def
  by (intro only_intros only_for_loop only_trainer_step) (simp_all add: epoch_event_def)

lemma only_checkpoint:
  "only (epoch_event rank a [epoch]) (checkpoint env rank a model_module epoch)"
  unfolding checkpoint_def
  by (intro only_intros) (simp_all add: epoch_event_def)

lemma only_trainer_epoch:
  "only (epoch_event rank a [epoch])
     (trainer_epoch env rank a g train_nid labels model model_module loss_fcn optimizer
        (num_hops a) epoch v)"
  unfolding trainer_epoch_def
  by (intro only_intros only_sampler_loop only_checkpoint)
     (simp_all add: epoch_event_def num_hops_def)

lemma saved_in_mono:
  assumes "saved_in a [x] ev" and "x \<in> set xs"
  shows "saved_in a xs ev"
proof (cases ev)
  case (Print msg)
  with assms show ?thesis by (cases msg) (auto simp add: mod_eq_0_iff_dvd)
next
  case (Torch_save m p)
  with assms show ?thesis by (auto simp add: mod_eq_0_iff_dvd)
qed simp_all

lemma epoch_event_mono:
  "epoch_event rank a [x] ev \<Longrightarrow> x \<in> set xs \<Longrightarrow> epoch_event rank a xs ev"
  unfolding epoch_event_def using saved_in_mono by blast

lemma only_trainer_loop:
  "only (epoch_event rank a (range_list (n_epochs a)))
     (trainer_loop env rank a g train_nid labels model model_module loss_fcn optimizer)"
  unfolding trainer_loop_def
  apply (intro only_intros only_for_loop)
  apply (rule only_weaken [OF only_trainer_epoch])
  apply (erule epoch_event_mono)
  apply assumption
  done

lemma only_trainer_setup:
  "only (epoch_event rank a epochs) (trainer_setup env rank world_size a backend)"
  unfolding trainer_setup_def
  by (intro only_intros only_init_process) (simp_all add: epoch_event_def)

lemma only_trainer:
  "only (epoch_event rank a (range_list (n_epochs a))) (trainer env rank world_size a backend)"
  unfolding trainer_def
  by (intro only_intros only_trainer_setup only_trainer_loop)

lemma trainer_events:
  assumes "ev \<in> set (run_trace (trainer env rank world_size a backend) out)"
  shows "basic_event rank a ev" and "saved_in a (range_list (n_epochs a)) ev"
  using only_run_trace [OF only_trainer assms] by (simp_all add: epoch_event_def)

subsection \<open>The number of hops\<close>

text \<open>
  C8. Whatever the arguments, the number of hops in each call of the neighbour sampler is
  the \<^verbatim>\<open>n_layers\<close> argument, and the value computed on line 61 is \<^verbatim>\<open>n_layers\<close> whether
  the \<^verbatim>\<open>preprocess\<close> flag is set or not.
\<close>

theorem sampler_hops_is_n_layers:
  assumes "NeighborSampler g bs nn h seeds
             \<in> set (run_trace (trainer env rank world_size a backend) out)"
  shows "h = n_layers a \<and> (\<forall>flag. num_hops (a\<lparr>preprocess := flag\<rparr>) = n_layers a)"
  using trainer_events(1) [OF assms] by (simp add: num_hops_def)

theorem sampler_hops_is_n_layers_witness:
  "NeighborSampler 1 2 2 1 [0, 2, 3]
     \<in> set (run_trace (trainer demo_env 0 1 (demo_args\<lparr>n_epochs := 1\<rparr>) ''nccl'') demo_outside)
   \<and> 1 = n_layers (demo_args\<lparr>n_epochs := 1\<rparr>)
   \<and> num_hops (demo_args\<lparr>n_epochs := 1, preprocess := True\<rparr>) = 1"
proof -
  have run: "NeighborSampler 1 2 2 1 [0, 2, 3]
     \<in> set (run_trace (trainer demo_env 0 1 (demo_args\<lparr>n_epochs := 1\<rparr>) ''nccl'') demo_outside)"
    by code_simp
  from sampler_hops_is_n_layers [OF run] show ?thesis
    using run by (simp add: demo_args_def)
qed

subsection \<open>Console output\<close>

text \<open>
  C6. In every run of a worker, complete or cut short by an exception: a report of the
  loss and of the batch time is printed only by the worker of rank 0 and only with a step
  counter that is a multiple of 20; the epoch time is printed only by the worker of rank 0;
  the loss is read for printing only by the worker of rank 0. A worker of another rank
  prints neither.
\<close>

theorem logging_only_on_rank_0:
  assumes "ev \<in> set (run_trace (trainer env rank world_size a backend) out)"
  shows "(ev = Print (Step_report e s l t) \<longrightarrow> rank = 0 \<and> s mod 20 = 0)
       \<and> (ev = Print (Epoch_report t) \<longrightarrow> rank = 0)
       \<and> (ev = Loss_item loss \<longrightarrow> rank = 0)"
  using trainer_events(1) [OF assms] by auto

theorem logging_only_on_rank_0_witness:
  "Print (Step_report 1 20 (Float64 0) (Float64 0))
     \<in> set (run_trace (trainer demo_env 0 1 demo_args_20 ''nccl'') demo_outside_20)
   \<and> (0::int) = 0 \<and> (20::int) mod 20 = 0"
proof -
  have run: "Print (Step_report 1 20 (Float64 0) (Float64 0))
     \<in> set (run_trace (trainer demo_env 0 1 demo_args_20 ''nccl'') demo_outside_20)"
    by code_simp
  from logging_only_on_rank_0 [OF run, of 1 20 "Float64 0" "Float64 0"] show ?thesis
    using run by simp
qed

subsection \<open>Checkpoints\<close>









lemma reaches_call_obj: "P ev \<Longrightarrow> reaches P (call_obj env ev)"
  by (auto simp add: reaches_def call_obj_def and_then_def call_def emit_def ret_def
      split: prod.splits sum.splits)

lemma reaches_right: "(\<And>a. reaches P (k a)) \<Longrightarrow> reaches P (and_then m k)"
  unfolding reaches_def and_then_def
  by (auto split: prod.splits sum.splits)

lemma reaches_left:
  assumes "reaches P m" and "\<And>a. only (\<lambda>_. True) (k a)"
  shows "reaches P (and_then m k)"
  unfolding reaches_def
proof (intro allI impI)
  fix out tr b out' tr'
  assume run: "and_then m k (out, tr) = (Inr b, (out', tr'))"
  obtain r1 out1 tr1 where m: "m (out, tr) = (r1, (out1, tr1))"
    by (metis prod.exhaust)
  with run obtain a where a: "r1 = Inr a" and k: "k a (out1, tr1) = (Inr b, (out', tr'))"
    by (cases r1) (simp_all add: and_then_def)
  from assms(1) m a obtain ev where ev: "ev \<in> set tr1" "P ev"
    unfolding reaches_def by blast
  from assms(2) [of a] k obtain evs where "tr' = tr1 @ evs"
    unfolding only_def by blast
  with ev show "\<exists>ev \<in> set tr'. P ev" by auto
qed









lemma reaches_run:
  "reaches P m \<Longrightarrow> run_result m out = Inr a \<Longrightarrow> \<exists>ev \<in> set (run_trace m out). P ev"
  unfolding reaches_def run_result_def run_trace_def
  by (metis prod.collapse)



subsection \<open>The training loop\<close>

lemma phases_simps [simp]: "phases [] = []" "phases (ev # tr) = phase_of ev @ phases tr"
  "phases (tr @ tr') = phases tr @ phases tr'"
  by (simp_all add: phases_def)

lemma sampler_sequences_simps [simp]: "sampler_sequences [] = []"
  "sampler_sequences (ev # tr) = sequences_of ev @ sampler_sequences tr"
  "sampler_sequences (tr @ tr') = sampler_sequences tr @ sampler_sequences tr'"
  by (simp_all add: sampler_sequences_def)

lemma conforms_ret: "conforms [] (ret a)"
  by (simp add: conforms_def ret_def)

lemma conforms_raise: "conforms ps (raise e)"
  by (simp add: conforms_def raise_def)

lemma conforms_lift: "conforms [] (lift r)"
  by (cases r) (simp_all add: lift_def conforms_ret conforms_raise)

lemma conforms_emit: "phase_of ev = ps \<Longrightarrow> sequences_of ev = [] \<Longrightarrow> conforms ps (emit ev)"
  by (simp add: conforms_def emit_def)

lemma conforms_call: "phase_of ev = ps \<Longrightarrow> sequences_of ev = [] \<Longrightarrow> conforms ps (call ev f)"
  unfolding conforms_def
proof (intro allI impI)
  fix out tr r out' tr'
  assume ev: "phase_of ev = ps" "sequences_of ev = []"
    and run: "call ev f (out, tr) = (r, (out', tr'))"
  obtain r1 out1 where f: "f out = (r1, out1)" by (metis prod.exhaust)
  show "\<exists>evs. tr' = tr @ evs \<and> sampler_sequences evs = []
           \<and> (case r of Inr a \<Rightarrow> phases evs = ps | Inl e \<Rightarrow> \<exists>rest. ps = phases evs @ rest)"
  proof (cases r1)
    case (Inl e)
    with run f have "r = Inl e" "tr' = tr @ [ev, Raise e]" by (simp_all add: call_def)
    with ev show ?thesis by (intro exI [of _ "[ev, Raise e]"]) simp
  next
    case (Inr a)
    with run f have "r = Inr a" "tr' = tr @ [ev]" by (simp_all add: call_def)
    with ev show ?thesis by (intro exI [of _ "[ev]"]) simp
  qed
qed

lemma conforms_and_then:
  assumes "conforms ps m" and "\<And>a. conforms qs (k a)"
  shows "conforms (ps @ qs) (and_then m k)"
  unfolding conforms_def
proof (intro allI impI)
  fix out tr r out' tr'
  assume run: "and_then m k (out, tr) = (r, (out', tr'))"
  obtain r1 out1 tr1 where m: "m (out, tr) = (r1, (out1, tr1))"
    by (metis prod.exhaust)
  from assms(1) m obtain evs1 where e1: "tr1 = tr @ evs1" "sampler_sequences evs1 = []"
    and p1: "case r1 of Inr a \<Rightarrow> phases evs1 = ps | Inl e \<Rightarrow> \<exists>rest. ps = phases evs1 @ rest"
    unfolding conforms_def by blast
  show "\<exists>evs. tr' = tr @ evs \<and> sampler_sequences evs = []
           \<and> (case r of Inr a \<Rightarrow> phases evs = ps @ qs
               | Inl e \<Rightarrow> \<exists>rest. ps @ qs = phases evs @ rest)"
  proof (cases r1)
    case (Inl e)
    with run m have r: "r = Inl e" "tr' = tr1" by (simp_all add: and_then_def)
    from p1 Inl obtain rest where "ps = phases evs1 @ rest" by auto
    then have "ps @ qs = phases evs1 @ (rest @ qs)" by simp
    with r e1 show ?thesis by (intro exI [of _ evs1]) auto
  next
    case (Inr a)
    with run m have k: "k a (out1, tr1) = (r, (out', tr'))" by (simp add: and_then_def)
    from assms(2) [of a] k obtain evs2 where e2: "tr' = tr1 @ evs2" "sampler_sequences evs2 = []"
      and p2: "case r of Inr a \<Rightarrow> phases evs2 = qs | Inl e \<Rightarrow> \<exists>rest. qs = phases evs2 @ rest"
      unfolding conforms_def by blast
    from p1 Inr have ps: "phases evs1 = ps" by simp
    have "case r of Inr a \<Rightarrow> phases (evs1 @ evs2) = ps @ qs
               | Inl e \<Rightarrow> \<exists>rest. ps @ qs = phases (evs1 @ evs2) @ rest"
    proof (cases r)
      case (Inl e)
      with p2 obtain rest where "qs = phases evs2 @ rest" by auto
      with ps have "ps @ qs = phases (evs1 @ evs2) @ rest" by simp
      with Inl show ?thesis by (simp only: sum.case) blast
    next
      case (Inr b)
      with p2 ps show ?thesis by simp
    qed
    with e1 e2 show ?thesis by (intro exI [of _ "evs1 @ evs2"]) simp
  qed
qed

lemma conforms_silent: "conforms [] m \<Longrightarrow> (\<And>a. conforms ps (k a)) \<Longrightarrow> conforms ps (and_then m k)"
  using conforms_and_then [of "[]" m ps k] by simp

lemma conforms_then:
  "conforms [p] m \<Longrightarrow> (\<And>a. conforms ps (k a)) \<Longrightarrow> conforms (p # ps) (and_then m k)"
  using conforms_and_then [of "[p]" m ps k] by simp

lemma conforms_case_prod:
  "(\<And>x y. conforms ps (f x y)) \<Longrightarrow> conforms ps (case p of (x, y) \<Rightarrow> f x y)"
  by (cases p) simp

lemma conforms_if:
  "(c \<Longrightarrow> conforms ps m) \<Longrightarrow> (\<not> c \<Longrightarrow> conforms ps n) \<Longrightarrow> conforms ps (if c then m else n)"
  by simp

lemma conforms_for_loop:
  assumes "\<And>x v. conforms (f x) (body x v)"
  shows "conforms (concat (map f xs)) (for_loop xs body v)"
proof (induction xs arbitrary: v)
  case Nil
  show ?case by (simp add: conforms_ret)
next
  case (Cons x xs)
  have "conforms (f x @ concat (map f xs)) (and_then (body x v) (for_loop xs body))"
    by (rule conforms_and_then) (rule assms, rule Cons.IH)
  then show ?case by simp
qed

lemma conforms_call_unit:
  "phase_of ev = ps \<Longrightarrow> sequences_of ev = [] \<Longrightarrow> conforms ps (call_unit env ev)"
  by (simp add: call_unit_def conforms_call)

lemma conforms_call_obj:
  assumes "phase_of ev = ps" "sequences_of ev = []"
  shows "conforms ps (call_obj env ev)"
proof -
  have "conforms (ps @ ([] @ [])) (call_obj env ev)"
    unfolding call_obj_def
    by (intro conforms_and_then conforms_call conforms_emit conforms_ret assms) simp_all
  then show ?thesis by simp
qed

lemma conforms_call_ints:
  "phase_of ev = ps \<Longrightarrow> sequences_of ev = [] \<Longrightarrow> conforms ps (call_ints env ev)"
  by (simp add: call_ints_def conforms_call)

lemma conforms_call_float:
  "phase_of ev = ps \<Longrightarrow> sequences_of ev = [] \<Longrightarrow> conforms ps (call_float env ev)"
  by (simp add: call_float_def conforms_call)

lemma conforms_call_graph:
  "phase_of ev = ps \<Longrightarrow> sequences_of ev = [] \<Longrightarrow> conforms ps (call_graph env ev)"
  by (simp add: call_graph_def conforms_call)

lemma silent_unit: "phase_of ev = [] \<Longrightarrow> sequences_of ev = [] \<Longrightarrow> (\<And>a. conforms ps (k a)) \<Longrightarrow>
    conforms ps (and_then (call_unit env ev) k)"
  by (rule conforms_silent) (simp_all add: conforms_call_unit)

lemma silent_obj: "phase_of ev = [] \<Longrightarrow> sequences_of ev = [] \<Longrightarrow> (\<And>a. conforms ps (k a)) \<Longrightarrow>
    conforms ps (and_then (call_obj env ev) k)"
  by (rule conforms_silent) (simp_all add: conforms_call_obj)

lemma silent_ints: "phase_of ev = [] \<Longrightarrow> sequences_of ev = [] \<Longrightarrow> (\<And>a. conforms ps (k a)) \<Longrightarrow>
    conforms ps (and_then (call_ints env ev) k)"
  by (rule conforms_silent) (simp_all add: conforms_call_ints)

lemma silent_float: "phase_of ev = [] \<Longrightarrow> sequences_of ev = [] \<Longrightarrow> (\<And>a. conforms ps (k a)) \<Longrightarrow>
    conforms ps (and_then (call_float env ev) k)"
  by (rule conforms_silent) (simp_all add: conforms_call_float)

lemma silent_graph: "phase_of ev = [] \<Longrightarrow> sequences_of ev = [] \<Longrightarrow> (\<And>a. conforms ps (k a)) \<Longrightarrow>
    conforms ps (and_then (call_graph env ev) k)"
  by (rule conforms_silent) (simp_all add: conforms_call_graph)

lemma silent_lift: "(\<And>a. conforms ps (k a)) \<Longrightarrow> conforms ps (and_then (lift r) k)"
  by (rule conforms_silent) (simp_all add: conforms_lift)

lemma silent_print: "(\<And>a. conforms ps (k a)) \<Longrightarrow> conforms ps (and_then (print msg) k)"
  by (rule conforms_silent) (simp_all add: print_def conforms_emit)

lemma silent_setenv: "(\<And>a. conforms ps (k a)) \<Longrightarrow> conforms ps (and_then (setenv key v) k)"
  by (rule conforms_silent) (auto simp add: conforms_def setenv_def)

lemma silent_manual_seed: "(\<And>a. conforms ps (k a)) \<Longrightarrow> conforms ps (and_then (manual_seed s) k)"
  by (rule conforms_silent) (auto simp add: conforms_def manual_seed_def)

lemmas silent_intros = silent_unit silent_obj silent_ints silent_float silent_graph silent_lift
  silent_print silent_setenv silent_manual_seed conforms_case_prod conforms_ret

lemma conforms_report:
  "conforms [] (if c then and_then (call_float env (Loss_item loss)) (\<lambda>l. print (msg l)) else ret ())"
  apply (rule conforms_if)
   apply (rule silent_float, simp, simp)
   apply (simp add: print_def conforms_emit)
  apply (rule conforms_ret)
  done

lemma conforms_trainer_step:
  "conforms [Forward_pass nf, Backward_pass, Optimizer_update]
     (trainer_step env rank labels model loss_fcn optimizer epoch nf v)"
  unfolding trainer_step_def
  apply (rule conforms_case_prod)
  apply (rule silent_float, simp, simp)
  apply (rule silent_unit, simp, simp)
  apply (rule silent_ints, simp, simp)
  apply (rule silent_lift)
  apply (rule silent_obj, simp, simp)
  apply (rule conforms_then, simp add: conforms_call_obj)
  apply (rule silent_obj, simp, simp)
  apply (rule silent_unit, simp, simp)
  apply (rule conforms_then, simp add: conforms_call_unit)
  apply (rule conforms_then, simp add: conforms_call_unit)
  apply (rule silent_float, simp, simp)
  apply (rule conforms_silent)
   apply (rule conforms_report)
  apply (rule conforms_ret)
  done

lemma conforms_sampler_loop:
  "conforms (concat (map mini_batch flows))
     (sampler_loop env rank labels model loss_fcn optimizer epoch flows fin v)"
proof -
  have body: "\<And>nf v. conforms (mini_batch nf)
      (and_then (emit (Next_flow nf)) (\<lambda>_.
         trainer_step env rank labels model loss_fcn optimizer epoch nf v))"
    unfolding mini_batch_def
    by (rule conforms_then) (simp_all add: conforms_emit conforms_trainer_step)
  have "conforms (concat (map mini_batch flows) @ [])
     (sampler_loop env rank labels model loss_fcn optimizer epoch flows fin v)"
    unfolding sampler_loop_def
    apply (rule conforms_and_then)
     apply (rule conforms_for_loop)
     apply (rule body)
    apply (cases fin)
     apply (simp_all add: conforms_ret conforms_raise)
    done
  then show ?thesis by simp
qed

lemma conforms_checkpoint: "conforms [] (checkpoint env rank a model_module epoch)"
  unfolding checkpoint_def
  apply (rule conforms_if)
   apply (rule silent_print)
   apply (simp add: conforms_call_unit)
  apply (rule conforms_ret)
  done

lemma conforms_init_process: "conforms [] (init_process env rank world_size backend)"
  unfolding init_process_def
  by (intro silent_intros) (simp_all add: print_def conforms_emit)

lemma conforms_trainer_setup: "conforms [] (trainer_setup env rank world_size a backend)"
  unfolding trainer_setup_def
  by (intro silent_intros conforms_silent [OF conforms_init_process]) simp_all

lemma conforms_epoch_report:
  "conforms []
     (if c then and_then (call_float env Time) (\<lambda>now.
                and_then (print (msg now)) (\<lambda>_. ret (f now)))
      else ret x)"
  apply (rule conforms_if)
   apply (rule silent_float, simp, simp)
   apply (rule silent_print)
   apply (rule conforms_ret)
  apply (rule conforms_ret)
  done

lemma conforms_epoch_rest:
  "conforms (concat (map mini_batch flows))
     (and_then (sampler_loop env rank labels model loss_fcn optimizer epoch flows fin v)
        (\<lambda>(step, batch_dur).
           and_then
             (if c then and_then (call_float env Time) (\<lambda>now.
                        and_then (print (msg now)) (\<lambda>_. ret (f now)))
              else ret x) (\<lambda>epoch_dur.
           and_then (checkpoint env rank a model_module epoch) (\<lambda>_.
           ret (epoch_dur, batch_dur)))))"
proof -
  have "conforms (concat (map mini_batch flows) @ [])
     (and_then (sampler_loop env rank labels model loss_fcn optimizer epoch flows fin v)
        (\<lambda>(step, batch_dur).
           and_then
             (if c then and_then (call_float env Time) (\<lambda>now.
                        and_then (print (msg now)) (\<lambda>_. ret (f now)))
              else ret x) (\<lambda>epoch_dur.
           and_then (checkpoint env rank a model_module epoch) (\<lambda>_.
           ret (epoch_dur, batch_dur)))))"
    apply (rule conforms_and_then)
     apply (rule conforms_sampler_loop)
    apply (rule conforms_case_prod)
    apply (rule conforms_silent)
     apply (rule conforms_epoch_report)
    apply (rule conforms_silent)
     apply (rule conforms_checkpoint)
    apply (rule conforms_ret)
    done
  then show ?thesis by simp
qed

text \<open>Making samplers.\<close>

lemma call_flows_run:
  "call_flows env ev (out, tr) =
     (case ext_flows env ev out of
        (Inl e, out') \<Rightarrow> (Inl e, (out', tr @ [ev, Raise e]))
      | (Inr x, out') \<Rightarrow> (Inr x, (out', tr @ [ev, Sampler_yields (fst x) (snd x)])))"
  by (simp add: call_flows_def and_then_def call_def emit_def ret_def
      split: prod.splits sum.splits)

lemma trains_silent:
  assumes "conforms [] m"
  shows "trains 0 m"
  unfolding trains_def
proof (intro allI impI)
  fix out tr r out' tr'
  assume "m (out, tr) = (r, (out', tr'))"
  with assms obtain evs where e: "tr' = tr @ evs" "sampler_sequences evs = []"
    and p: "case r of Inr a \<Rightarrow> phases evs = [] | Inl e \<Rightarrow> \<exists>rest. [] = phases evs @ rest"
    unfolding conforms_def by blast
  from p have "phases evs = []" by (cases r) simp_all
  with e have "tr' = tr @ evs
      \<and> (case r of
           Inr a \<Rightarrow> phases evs = concat (map epoch_phases (sampler_sequences evs))
                   \<and> length (sampler_sequences evs) = 0
         | Inl e \<Rightarrow> \<exists>rest. concat (map epoch_phases (sampler_sequences evs)) = phases evs @ rest)"
    by (cases r) simp_all
  then show "\<exists>evs. tr' = tr @ evs
      \<and> (case r of
           Inr a \<Rightarrow> phases evs = concat (map epoch_phases (sampler_sequences evs))
                   \<and> length (sampler_sequences evs) = 0
         | Inl e \<Rightarrow> \<exists>rest. concat (map epoch_phases (sampler_sequences evs)) = phases evs @ rest)"
    by blast
qed

lemma trains_and_then:
  assumes "trains i m" and "\<And>a. trains j (k a)"
  shows "trains (i + j) (and_then m k)"
  unfolding trains_def
proof (intro allI impI)
  fix out tr r out' tr'
  assume run: "and_then m k (out, tr) = (r, (out', tr'))"
  obtain r1 out1 tr1 where m: "m (out, tr) = (r1, (out1, tr1))"
    by (metis prod.exhaust)
  from assms(1) m obtain evs1 where e1: "tr1 = tr @ evs1"
    and p1: "case r1 of
               Inr a \<Rightarrow> phases evs1 = concat (map epoch_phases (sampler_sequences evs1))
                       \<and> length (sampler_sequences evs1) = i
             | Inl e \<Rightarrow> \<exists>rest. concat (map epoch_phases (sampler_sequences evs1))
                                 = phases evs1 @ rest"
    unfolding trains_def by blast
  show "\<exists>evs. tr' = tr @ evs
      \<and> (case r of
           Inr a \<Rightarrow> phases evs = concat (map epoch_phases (sampler_sequences evs))
                   \<and> length (sampler_sequences evs) = i + j
         | Inl e \<Rightarrow> \<exists>rest. concat (map epoch_phases (sampler_sequences evs)) = phases evs @ rest)"
  proof (cases r1)
    case (Inl e)
    with run m have "r = Inl e" "tr' = tr1" by (simp_all add: and_then_def)
    with e1 p1 Inl show ?thesis by (intro exI [of _ evs1]) simp
  next
    case (Inr a)
    with run m have k: "k a (out1, tr1) = (r, (out', tr'))" by (simp add: and_then_def)
    from assms(2) [of a] k obtain evs2 where e2: "tr' = tr1 @ evs2"
      and p2: "case r of
                 Inr a \<Rightarrow> phases evs2 = concat (map epoch_phases (sampler_sequences evs2))
                         \<and> length (sampler_sequences evs2) = j
               | Inl e \<Rightarrow> \<exists>rest. concat (map epoch_phases (sampler_sequences evs2))
                                   = phases evs2 @ rest"
      unfolding trains_def by blast
    from p1 Inr have ps: "phases evs1 = concat (map epoch_phases (sampler_sequences evs1))"
      "length (sampler_sequences evs1) = i" by simp_all
    have "case r of
            Inr a \<Rightarrow> phases (evs1 @ evs2)
                      = concat (map epoch_phases (sampler_sequences (evs1 @ evs2)))
                    \<and> length (sampler_sequences (evs1 @ evs2)) = i + j
          | Inl e \<Rightarrow> \<exists>rest. concat (map epoch_phases (sampler_sequences (evs1 @ evs2)))
                              = phases (evs1 @ evs2) @ rest"
    proof (cases r)
      case (Inl e)
      with p2 obtain rest where
        "concat (map epoch_phases (sampler_sequences evs2)) = phases evs2 @ rest" by auto
      with ps have "concat (map epoch_phases (sampler_sequences (evs1 @ evs2)))
                      = phases (evs1 @ evs2) @ rest" by simp
      with Inl show ?thesis by (simp only: sum.case) blast
    next
      case (Inr b)
      with p2 ps show ?thesis by simp
    qed
    with e1 e2 show ?thesis by (intro exI [of _ "evs1 @ evs2"]) simp
  qed
qed

lemma trains_after: "conforms [] m \<Longrightarrow> (\<And>a. trains n (k a)) \<Longrightarrow> trains n (and_then m k)"
  using trains_and_then [OF trains_silent, of m n k] by simp

lemma trains_for_loop:
  assumes "\<And>x v. trains j (body x v)"
  shows "trains (length xs * j) (for_loop xs body v)"
proof (induction xs arbitrary: v)
  case Nil
  show ?case by (simp add: trains_silent conforms_ret)
next
  case (Cons x xs)
  have "trains (j + length xs * j) (and_then (body x v) (for_loop xs body))"
    by (rule trains_and_then) (rule assms, rule Cons.IH)
  then show ?case by simp
qed

lemma trains_case_prod: "(\<And>x y. trains n (f x y)) \<Longrightarrow> trains n (case p of (x, y) \<Rightarrow> f x y)"
  by (cases p) simp

lemma trains_call_flows:
  assumes ev: "phase_of ev = []" "sequences_of ev = []"
    and k: "\<And>flows fin. conforms (concat (map mini_batch flows)) (k (flows, fin))"
  shows "trains 1 (and_then (call_flows env ev) k)"
  unfolding trains_def
proof (intro allI impI)
  fix out tr r out' tr'
  assume run: "and_then (call_flows env ev) k (out, tr) = (r, (out', tr'))"
  obtain r1 out1 where f: "ext_flows env ev out = (r1, out1)" by (metis prod.exhaust)
  show "\<exists>evs. tr' = tr @ evs
      \<and> (case r of
           Inr a \<Rightarrow> phases evs = concat (map epoch_phases (sampler_sequences evs))
                   \<and> length (sampler_sequences evs) = 1
         | Inl e \<Rightarrow> \<exists>rest. concat (map epoch_phases (sampler_sequences evs)) = phases evs @ rest)"
  proof (cases r1)
    case (Inl e)
    with run f have "r = Inl e" "tr' = tr @ [ev, Raise e]"
      by (simp_all add: and_then_def call_flows_run)
    with ev show ?thesis by (intro exI [of _ "[ev, Raise e]"]) simp
  next
    case (Inr x)
    obtain flows fin where x: "x = (flows, fin)" by (cases x)
    from run f Inr x
    have "k (flows, fin) (out1, tr @ [ev, Sampler_yields flows fin]) = (r, (out', tr'))"
      by (simp add: and_then_def call_flows_run)
    with k [of flows fin] obtain evs2 where
      e2: "tr' = (tr @ [ev, Sampler_yields flows fin]) @ evs2" "sampler_sequences evs2 = []"
      and p2: "case r of Inr a \<Rightarrow> phases evs2 = concat (map mini_batch flows)
               | Inl e \<Rightarrow> \<exists>rest. concat (map mini_batch flows) = phases evs2 @ rest"
      unfolding conforms_def by blast
    let ?evs = "[ev, Sampler_yields flows fin] @ evs2"
    from ev e2 have s: "sampler_sequences ?evs = [flows]"
      and p: "phases ?evs = New_sampler flows # phases evs2" by simp_all
    have "case r of
            Inr a \<Rightarrow> phases ?evs = concat (map epoch_phases (sampler_sequences ?evs))
                    \<and> length (sampler_sequences ?evs) = 1
          | Inl e \<Rightarrow> \<exists>rest. concat (map epoch_phases (sampler_sequences ?evs))
                              = phases ?evs @ rest"
    proof (cases r)
      case (Inl e)
      with p2 obtain rest where "concat (map mini_batch flows) = phases evs2 @ rest" by auto
      then have "concat (map epoch_phases (sampler_sequences ?evs)) = phases ?evs @ rest"
        unfolding s p by (simp add: epoch_phases_def)
      with Inl show ?thesis by (simp only: sum.case) blast
    next
      case (Inr b)
      with p2 have "phases evs2 = concat (map mini_batch flows)" by simp
      then have "phases ?evs = concat (map epoch_phases (sampler_sequences ?evs))
          \<and> length (sampler_sequences ?evs) = 1"
        unfolding s p by (simp add: epoch_phases_def)
      with Inr show ?thesis by (simp only: sum.case)
    qed
    with e2(1) show ?thesis by (intro exI [of _ ?evs]) simp
  qed
qed

lemma trains_trainer_epoch:
  "trains 1 (trainer_epoch env rank a g train_nid labels model model_module loss_fcn optimizer
               hops epoch v)"
  unfolding trainer_epoch_def
  apply (rule trains_case_prod)
  apply (rule trains_after, simp add: conforms_call_unit)
  apply (rule trains_after, simp add: conforms_call_float)
  apply (rule trains_call_flows, simp, simp)
  apply (simp only: prod.case)
  apply (rule conforms_epoch_rest)
  done

lemma trains_trainer_loop:
  "trains (nat (n_epochs a))
     (trainer_loop env rank a g train_nid labels model model_module loss_fcn optimizer)"
proof -
  have "trains (length (range_list (n_epochs a)) * 1 + 0)
     (trainer_loop env rank a g train_nid labels model model_module loss_fcn optimizer)"
    unfolding trainer_loop_def
    apply (rule trains_and_then)
     apply (rule trains_for_loop)
     apply (rule trains_trainer_epoch)
    apply (rule trains_silent)
    apply (rule conforms_ret)
    done
  then show ?thesis by (simp add: range_list_def)
qed

lemma trains_trainer: "trains (nat (n_epochs a)) (trainer env rank world_size a backend)"
  unfolding trainer_def
  apply (rule trains_after)
   apply (rule conforms_trainer_setup)
  apply (intro trains_case_prod)
  apply (rule trains_trainer_loop)
  done

lemma optimizer_steps_phases: "optimizer_steps tr = count_list (phases tr) Optimizer_update"
  unfolding optimizer_steps_def
proof (induction tr)
  case Nil
  show ?case by simp
next
  case (Cons ev tr)
  then show ?case by (cases ev) simp_all
qed

lemma count_mini_batches:
  "count_list (concat (map mini_batch flows)) Optimizer_update = length flows"
  by (induction flows) (simp_all add: mini_batch_def)

lemma count_epochs:
  "count_list (concat (map epoch_phases seqs)) Optimizer_update = length (concat seqs)"
  by (induction seqs) (simp_all add: epoch_phases_def count_mini_batches)

lemma length_concat_const:
  "(\<And>xs. xs \<in> set xss \<Longrightarrow> length xs = k) \<Longrightarrow> length (concat xss) = length xss * k"
  by (induction xss) simp_all

lemma ceil_div:
  fixes n b :: int
  assumes "0 < b"
  shows "\<lceil>real_of_int n / real_of_int b\<rceil> = (n + b - 1) div b"
proof -
  have "\<lceil>real_of_int n / real_of_int b\<rceil> = - (- n div b)"
    by (rule ceiling_divide_eq_div)
  also have "\<dots> = (n + b - 1) div b"
  proof -
    define q where "q = (n + b - 1) div b"
    define r where "r = (n + b - 1) mod b"
    have r: "0 \<le> r" "r < b" using assms by (simp_all add: r_def)
    have eq: "n + b - 1 = q * b + r" by (simp add: q_def r_def)
    then have "- n = (- q) * b + (b - 1 - r)" by (simp add: algebra_simps)
    moreover have "0 \<le> b - 1 - r" "b - 1 - r < b" using r by simp_all
    ultimately have "- n div b = - q"
      using assms by (metis div_pos_pos_trivial add.commute add.right_neutral div_mult_self3 less_irrefl)
    then show ?thesis by (simp add: q_def)
  qed
  finally show ?thesis .
qed

text \<open>Under its contract every sampler the loop makes holds \<open>\<lceil>n / b\<rceil>\<close> node flows.\<close>

lemma only_call_flows_contract:
  assumes "P ev" and "\<And>e. P (Raise e)"
    and "\<And>out flows fin out'. ext_flows env ev out = (Inr (flows, fin), out') \<Longrightarrow>
           P (Sampler_yields flows fin)"
  shows "only P (call_flows env ev)"
  unfolding only_def
proof (intro allI impI)
  fix out tr r out' tr'
  assume run: "call_flows env ev (out, tr) = (r, (out', tr'))"
  obtain r1 out1 where f: "ext_flows env ev out = (r1, out1)" by (metis prod.exhaust)
  show "\<exists>evs. tr' = tr @ evs \<and> list_all P evs"
  proof (cases r1)
    case (Inl e)
    with run f have "tr' = tr @ [ev, Raise e]" by (simp add: call_flows_run)
    with assms(1,2) show ?thesis by simp
  next
    case (Inr x)
    obtain flows fin where x: "x = (flows, fin)" by (cases x)
    from run f Inr x have "tr' = tr @ [ev, Sampler_yields flows fin]"
      by (simp add: call_flows_run)
    moreover from assms(3) [of out flows fin out1] f Inr x
    have "P (Sampler_yields flows fin)" by simp
    ultimately show ?thesis using assms(1) by simp
  qed
qed

lemma holds_trainer_step:
  "only (sampler_holds c) (trainer_step env rank labels model loss_fcn optimizer epoch nf v)"
  unfolding trainer_step_def
  by (intro only_intros) simp_all

lemma holds_sampler_loop:
  "only (sampler_holds c)
     (sampler_loop env rank labels model loss_fcn optimizer epoch flows fin v)"
  unfolding sampler_loop_def
  by (intro only_intros only_for_loop holds_trainer_step) simp_all

lemma holds_checkpoint: "only (sampler_holds c) (checkpoint env rank a model_module epoch)"
  unfolding checkpoint_def
  by (intro only_intros) simp_all

lemma holds_trainer_epoch:
  assumes "sampler_yields_ceil env" "0 < batch_size a"
  shows "only (sampler_holds \<lceil>real (length train_nid) / real_of_int (batch_size a)\<rceil>)
     (trainer_epoch env rank a g train_nid labels model model_module loss_fcn optimizer
        hops epoch v)"
proof -
  have made: "only (sampler_holds \<lceil>real (length train_nid) / real_of_int (batch_size a)\<rceil>)
      (call_flows env (NeighborSampler g (batch_size a) (num_neighbors a) hops train_nid))"
  proof (rule only_call_flows_contract)
    fix out flows fin out'
    assume "ext_flows env (NeighborSampler g (batch_size a) (num_neighbors a) hops train_nid) out
              = (Inr (flows, fin), out')"
    with assms have "int (length flows) = \<lceil>real (length train_nid) / real_of_int (batch_size a)\<rceil>"
      unfolding sampler_yields_ceil_def by blast
    then show "sampler_holds \<lceil>real (length train_nid) / real_of_int (batch_size a)\<rceil>
                 (Sampler_yields flows fin)" by simp
  qed simp_all
  show ?thesis
    unfolding trainer_epoch_def
    by (intro only_case_prod only_and_then only_call_unit only_call_float only_if only_print
        only_ret made holds_sampler_loop holds_checkpoint) simp_all
qed

lemma holds_trainer_loop:
  assumes "sampler_yields_ceil env" "0 < batch_size a"
  shows "only (sampler_holds \<lceil>real (length train_nid) / real_of_int (batch_size a)\<rceil>)
     (trainer_loop env rank a g train_nid labels model model_module loss_fcn optimizer)"
  unfolding trainer_loop_def
  by (intro only_and_then only_for_loop only_ret holds_trainer_epoch assms)

lemma sampler_holds_sequences:
  "list_all (sampler_holds c) evs \<Longrightarrow> flows \<in> set (sampler_sequences evs) \<Longrightarrow>
   int (length flows) = c"
proof (induction evs)
  case Nil
  then show ?case by simp
next
  case (Cons ev evs)
  then show ?case by (cases ev) auto
qed

lemma trainer_sequences:
  assumes built: "run_result (trainer_setup env rank world_size a backend) out
                    = Inr (g, train_nid, labels, model, model_module, loss_fcn, optimizer)"
    and contract: "sampler_yields_ceil env" "0 < batch_size a"
    and flows: "flows \<in> set (sampler_sequences (run_trace (trainer env rank world_size a backend) out))"
  shows "int (length flows) = \<lceil>real (length train_nid) / real_of_int (batch_size a)\<rceil>"
proof -
  define S where "S = trainer_setup env rank world_size a backend"
  define out1 where "out1 = run_outside S out"
  define tr1 where "tr1 = run_trace S out"
  define L where "L = trainer_loop env rank a g train_nid labels model model_module loss_fcn optimizer"
  from built have s: "S (out, []) = (Inr (g, train_nid, labels, model, model_module, loss_fcn, optimizer), (out1, tr1))"
    using run_collapse [of S out] by (simp add: S_def out1_def tr1_def)
  from conforms_trainer_setup [of env rank world_size a backend] s
  have quiet: "sampler_sequences tr1 = []"
    unfolding conforms_def S_def by fastforce
  have "trainer env rank world_size a backend (out, []) = L (out1, tr1)"
    using s by (simp add: trainer_def and_then_def S_def L_def)
  then have t: "run_trace (trainer env rank world_size a backend) out = snd (snd (L (out1, tr1)))"
    by (simp add: run_trace_def)
  obtain r out2 tr2 where l: "L (out1, tr1) = (r, (out2, tr2))" by (metis prod.exhaust)
  from holds_trainer_loop [OF contract, of train_nid rank g labels model model_module loss_fcn optimizer] l
  obtain evs where evs: "tr2 = tr1 @ evs"
    "list_all (sampler_holds \<lceil>real (length train_nid) / real_of_int (batch_size a)\<rceil>) evs"
    unfolding only_def L_def by blast
  from flows t l evs(1) quiet have "flows \<in> set (sampler_sequences evs)" by simp
  with evs(2) show ?thesis by (rule sampler_holds_sequences)
qed

lemma trainer_phases:
  fixes env :: "'x env"
  defines "S \<equiv> \<lambda>tr. concat (map epoch_phases (sampler_sequences tr))"
  shows "\<exists>rest. S (run_trace (trainer env rank world_size a backend) out)
                  = phases (run_trace (trainer env rank world_size a backend) out) @ rest"
    and "run_result (trainer env rank world_size a backend) out = Inr u \<Longrightarrow>
           phases (run_trace (trainer env rank world_size a backend) out)
             = S (run_trace (trainer env rank world_size a backend) out)
         \<and> length (sampler_sequences (run_trace (trainer env rank world_size a backend) out))
             = nat (n_epochs a)"
proof -
  let ?T = "trainer env rank world_size a backend"
  from trains_trainer [of a env rank world_size backend, unfolded trains_def, rule_format,
      OF run_collapse [of ?T out]]
  obtain evs where evs: "run_trace ?T out = [] @ evs"
    and p: "case run_result ?T out of
              Inr a' \<Rightarrow> phases evs = concat (map epoch_phases (sampler_sequences evs))
                      \<and> length (sampler_sequences evs) = nat (n_epochs a)
            | Inl e \<Rightarrow> \<exists>rest. concat (map epoch_phases (sampler_sequences evs))
                                = phases evs @ rest"
    by blast
  from evs have e: "evs = run_trace ?T out" by simp
  show "\<exists>rest. S (run_trace ?T out) = phases (run_trace ?T out) @ rest"
    using p unfolding e S_def by (cases "run_result ?T out") simp_all
  show "phases (run_trace ?T out) = S (run_trace ?T out)
      \<and> length (sampler_sequences (run_trace ?T out)) = nat (n_epochs a)"
    if "run_result ?T out = Inr u"
    using p that unfolding e S_def by simp
qed

text \<open>
  C4. In every run of a worker, however it ends, the phases of the trace are the beginning
  of the epochs of the samplers made: for each sampler, in the order they are made, one
  mini-batch for each node flow the sampler holds, in the order batch-sample, forward,
  backward, optimizer-step, the forward pass being on the node flow sampled. In a run that
  ends without an exception the phases are exactly these epochs, whole; one sampler has
  been made for each of the \<^verbatim>\<open>n_epochs\<close> epochs; and the number of optimizer steps is the
  number of node flows that the samplers hold. If moreover the sampler keeps its contract
  (it yields \<open>\<lceil>n / b\<rceil>\<close> node flows over \<open>n\<close> seed nodes with the batch size \<open>b > 0\<close>), every
  sampler made holds \<open>\<lceil>n / b\<rceil>\<close> node flows for the \<open>n\<close> training nodes of the partition and
  the batch size \<open>b\<close> of the arguments, and the number of optimizer steps of a run that ends
  without an exception is \<open>\<lceil>n / b\<rceil>\<close> for each epoch: \<open>\<lceil>n / b\<rceil>\<close> with \<^verbatim>\<open>n_epochs = 1\<close>.
\<close>

theorem one_optimizer_step_per_node_flow:
  assumes "tr = run_trace (trainer env rank world_size a backend) out"
  shows "(\<exists>rest. concat (map epoch_phases (sampler_sequences tr)) = phases tr @ rest)
       \<and> (run_result (trainer env rank world_size a backend) out = Inr () \<longrightarrow>
            phases tr = concat (map epoch_phases (sampler_sequences tr))
          \<and> length (sampler_sequences tr) = nat (n_epochs a)
          \<and> optimizer_steps tr = length (concat (sampler_sequences tr)))
       \<and> (\<forall>g train_nid labels model model_module loss_fcn optimizer.
            run_result (trainer_setup env rank world_size a backend) out
              = Inr (g, train_nid, labels, model, model_module, loss_fcn, optimizer) \<longrightarrow>
            sampler_yields_ceil env \<longrightarrow> 0 < batch_size a \<longrightarrow>
              (\<forall>flows \<in> set (sampler_sequences tr).
                 int (length flows) = \<lceil>real (length train_nid) / real_of_int (batch_size a)\<rceil>)
            \<and> (run_result (trainer env rank world_size a backend) out = Inr () \<longrightarrow>
                 int (optimizer_steps tr)
                   = int (nat (n_epochs a))
                     * \<lceil>real (length train_nid) / real_of_int (batch_size a)\<rceil>
               \<and> (n_epochs a = 1 \<longrightarrow>
                    int (optimizer_steps tr)
                      = \<lceil>real (length train_nid) / real_of_int (batch_size a)\<rceil>)))"
proof -
  let ?T = "trainer env rank world_size a backend"
  let ?S = "sampler_sequences tr"
  have partial: "\<exists>rest. concat (map epoch_phases ?S) = phases tr @ rest"
    unfolding assms by (rule trainer_phases(1))
  have whole: "phases tr = concat (map epoch_phases ?S) \<and> length ?S = nat (n_epochs a)
      \<and> optimizer_steps tr = length (concat ?S)"
    if ok: "run_result ?T out = Inr ()"
  proof -
    from trainer_phases(2) [OF ok]
    have p: "phases tr = concat (map epoch_phases ?S)" and n: "length ?S = nat (n_epochs a)"
      unfolding assms by simp_all
    from p have "optimizer_steps tr = length (concat ?S)"
      by (simp add: optimizer_steps_phases count_epochs)
    with p n show ?thesis by simp
  qed
  have contract: "(\<forall>flows \<in> set ?S.
          int (length flows) = \<lceil>real (length train_nid) / real_of_int (batch_size a)\<rceil>)
      \<and> (run_result ?T out = Inr () \<longrightarrow>
           int (optimizer_steps tr)
             = int (nat (n_epochs a)) * \<lceil>real (length train_nid) / real_of_int (batch_size a)\<rceil>
         \<and> (n_epochs a = 1 \<longrightarrow>
              int (optimizer_steps tr)
                = \<lceil>real (length train_nid) / real_of_int (batch_size a)\<rceil>))"
    if built: "run_result (trainer_setup env rank world_size a backend) out
                 = Inr (g, train_nid, labels, model, model_module, loss_fcn, optimizer)"
      and c: "sampler_yields_ceil env" "0 < batch_size a"
    for g train_nid labels model model_module loss_fcn optimizer
  proof -
    let ?c = "\<lceil>real (length train_nid) / real_of_int (batch_size a)\<rceil>"
    have each: "int (length flows) = ?c" if "flows \<in> set ?S" for flows
      using trainer_sequences [OF built c] that unfolding assms by blast
    have steps: "int (optimizer_steps tr) = int (nat (n_epochs a)) * ?c"
      if ok: "run_result ?T out = Inr ()"
    proof -
      from each have "length flows = nat ?c" if "flows \<in> set ?S" for flows
        using that by fastforce
      then have "length (concat ?S) = length ?S * nat ?c" by (rule length_concat_const)
      with whole [OF ok] have "optimizer_steps tr = nat (n_epochs a) * nat ?c" by simp
      moreover have "0 \<le> real (length train_nid) / real_of_int (batch_size a)"
        using c(2) by simp
      then have "0 \<le> ?c"
        using ceiling_mono [of 0 "real (length train_nid) / real_of_int (batch_size a)"] by simp
      ultimately show ?thesis by simp
    qed
    from each steps show ?thesis by simp
  qed
  from partial whole contract show ?thesis by blast
qed

lemma demo_sampler_yields_ceil: "sampler_yields_ceil demo_env"
proof -
  have "int (nat ((int n + bs - 1) div bs)) = \<lceil>real n / real_of_int bs\<rceil>"
    if "0 < bs" for n :: nat and bs :: int
  proof -
    from that have "0 \<le> (int n + bs - 1) div bs" by (simp add: pos_imp_zdiv_nonneg_iff)
    with ceil_div [OF that, of "int n"] show ?thesis by simp
  qed
  then show ?thesis
    unfolding sampler_yields_ceil_def demo_env_def by auto
qed

theorem one_optimizer_step_per_node_flow_witness:
  "run_result (trainer demo_env 0 1 demo_args ''nccl'') demo_outside = Inr ()
   \<and> run_result (trainer_setup demo_env 0 1 demo_args ''nccl'') demo_outside
       = Inr (1, [0, 2, 3], [5, 0, 6, 7], 7, 5, 1, 1)
   \<and> sampler_yields_ceil demo_env \<and> 0 < batch_size demo_args
   \<and> sampler_sequences (run_trace (trainer demo_env 0 1 demo_args ''nccl'') demo_outside)
       = [[20, 21], [20, 21], [20, 21], [20, 21], [20, 21]]
   \<and> optimizer_steps (run_trace (trainer demo_env 0 1 demo_args ''nccl'') demo_outside) = 10
   \<and> run_result (trainer demo_env 0 1 demo_args_1 ''nccl'') demo_outside = Inr ()
   \<and> n_epochs demo_args_1 = 1
   \<and> optimizer_steps (run_trace (trainer demo_env 0 1 demo_args_1 ''nccl'') demo_outside) = 2"
proof -
  have ok: "run_result (trainer demo_env 0 1 demo_args ''nccl'') demo_outside = Inr ()"
    by code_simp
  have built: "run_result (trainer_setup demo_env 0 1 demo_args ''nccl'') demo_outside
       = Inr (1, [0, 2, 3], [5, 0, 6, 7], 7, 5, 1, 1)"
    by code_simp
  have seqs: "sampler_sequences (run_trace (trainer demo_env 0 1 demo_args ''nccl'') demo_outside)
       = [[20, 21], [20, 21], [20, 21], [20, 21], [20, 21]]"
    by code_simp
  have ok1: "run_result (trainer demo_env 0 1 demo_args_1 ''nccl'') demo_outside = Inr ()"
    by code_simp
  have built1: "run_result (trainer_setup demo_env 0 1 demo_args_1 ''nccl'') demo_outside
       = Inr (1, [0, 2, 3], [5, 0, 6, 7], 7, 5, 1, 1)"
    by code_simp
  have a: "batch_size demo_args = 2" "n_epochs demo_args = 5"
    "batch_size demo_args_1 = 2" "n_epochs demo_args_1 = 1"
    by (simp_all add: demo_args_1_def demo_args_def)
  note inst = one_optimizer_step_per_node_flow [OF refl, of demo_env 0 1 demo_args "''nccl''" demo_outside]
  note inst1 = one_optimizer_step_per_node_flow [OF refl, of demo_env 0 1 demo_args_1 "''nccl''" demo_outside]
  from inst [THEN conjunct2, THEN conjunct1, rule_format, OF ok] seqs
  have steps: "optimizer_steps (run_trace (trainer demo_env 0 1 demo_args ''nccl'') demo_outside) = 10"
    by simp
  from inst1 [THEN conjunct2, THEN conjunct2, rule_format, OF built1 demo_sampler_yields_ceil] a ok1
  have steps1: "optimizer_steps (run_trace (trainer demo_env 0 1 demo_args_1 ''nccl'') demo_outside) = 2"
    by simp
  from ok built demo_sampler_yields_ceil a seqs steps ok1 steps1 show ?thesis by simp
qed

subsection \<open>Exceptions end the worker\<close>

































subsection \<open>The label vector\<close>

lemma np_max_eq:
  assumes "xs \<noteq> []"
  shows "np_max xs = Inr (Max (set xs))"
proof (cases xs)
  case Nil
  with assms show ?thesis by simp
next
  case (Cons x rest)
  then show ?thesis using Max.set_eq_fold [of x rest] by (simp add: np_max_def)
qed

lemma int64_add_range: "- (2 ^ 63) \<le> int64_add x y \<and> int64_add x y < 2 ^ 63"
proof -
  have "0 \<le> (x + y + 2 ^ 63) mod 2 ^ 64" "(x + y + 2 ^ 63) mod 2 ^ 64 < (2 ^ 64 :: int)"
    by simp_all
  then show ?thesis unfolding int64_add_def by simp
qed

lemma int64_add_fits:
  assumes "- (2 ^ 63) \<le> x + y" and "x + y < 2 ^ 63"
  shows "int64_add x y = x + y"
proof -
  from assms have "0 \<le> x + y + 2 ^ 63" "x + y + 2 ^ 63 < 2 ^ 64" by simp_all
  then have "(x + y + 2 ^ 63) mod 2 ^ 64 = x + y + 2 ^ 63" by (rule mod_pos_pos_trivial)
  then show ?thesis unfolding int64_add_def by simp
qed

lemma int64_add_overflow: "x = 2 ^ 63 - 1 \<Longrightarrow> int64_add x 1 < 0"
  by (simp add: int64_add_def)

lemma wrap_indices_length: "wrap_indices n idx = Inr js \<Longrightarrow> length js = length idx"
  by (induction idx arbitrary: js) (auto split: sum.splits)

lemma wrap_indices_valid:
  "wrap_indices n idx = Inr js \<Longrightarrow> i \<in> set idx \<Longrightarrow> - int n \<le> i \<and> i < int n"
  by (induction idx arbitrary: js) (auto simp add: wrap_index_def split: sum.splits if_splits)

lemma wrap_indices_total:
  "(\<And>i. i \<in> set idx \<Longrightarrow> - int n \<le> i \<and> i < int n) \<Longrightarrow> \<exists>js. wrap_indices n idx = Inr js"
  by (induction idx) (auto simp add: wrap_index_def)

lemma wrap_indices_nonneg:
  "(\<And>i. i \<in> set idx \<Longrightarrow> 0 \<le> i \<and> i < int n) \<Longrightarrow> wrap_indices n idx = Inr (map nat idx)"
  by (induction idx) (auto simp add: wrap_index_def)

lemma assign_length:
  "length (fold (\<lambda>(j, v) b. b[j := v]) jvs a) = length a"
  by (induction jvs arbitrary: a) auto

lemma assign_elsewhere:
  "p \<notin> fst ` set jvs \<Longrightarrow> fold (\<lambda>(j, v) b. b[j := v]) jvs a ! p = a ! p"
  by (induction jvs arbitrary: a) auto

lemma assign_at:
  assumes "distinct js" "length vs = length js" "\<And>j. j \<in> set js \<Longrightarrow> j < length a"
    and "k < length js"
  shows "fold (\<lambda>(j, v) b. b[j := v]) (zip js vs) a ! (js ! k) = vs ! k"
  using assms
proof (induction js arbitrary: vs a k)
  case Nil
  then show ?case by simp
next
  case (Cons j js)
  from Cons.prems(2) obtain v vs' where vs: "vs = v # vs'" by (cases vs) auto
  show ?case
  proof (cases k)
    case 0
    from Cons.prems(1) have "j \<notin> fst ` set (zip js vs')"
      by (auto dest: set_zip_leftD)
    then have "fold (\<lambda>(j, v) b. b[j := v]) (zip js vs') (a[j := v]) ! j = a[j := v] ! j"
      by (rule assign_elsewhere)
    with Cons.prems(3) [of j] 0 vs show ?thesis by simp
  next
    case (Suc k')
    with Cons.prems vs have "fold (\<lambda>(j, v) b. b[j := v]) (zip js vs') (a[j := v]) ! (js ! k') = vs' ! k'"
      by (intro Cons.IH) auto
    with Suc vs show ?thesis by simp
  qed
qed

text \<open>A label vector that has been built: the addition has not wrapped around, since
  the largest id is a valid index of the vector.\<close>

lemma build_labels_Inr:
  assumes "build_labels allocator train_nid sub_labels = Inr labels"
  shows "train_nid \<noteq> []"
    and "int (length labels) = Max (set train_nid) + 1"
    and "\<exists>js. wrap_indices (length labels) train_nid = Inr js"
    and "Max (set train_nid) + 1 < 2 ^ 63"
    and "allocator (nat (Max (set train_nid) + 1)) = None"
proof -
  show ne: "train_nid \<noteq> []"
    using assms by (auto simp add: build_labels_def np_max_def)
  let ?m = "Max (set train_nid)"
  let ?n = "int64_add ?m 1"
  from assms ne have z: "0 \<le> ?n" and al: "allocator (nat ?n) = None"
    by (auto simp add: build_labels_def np_max_eq np_zeros_def split: if_splits option.splits)
  from assms ne z al obtain vs js where
    js: "wrap_indices (nat ?n) train_nid = Inr js"
    and l: "labels = fold (\<lambda>(j, v) b. b[j := v]) (zip js vs) (replicate (nat ?n) 0)"
    by (auto simp add: build_labels_def np_max_eq np_zeros_def np_setitem_def
        split: sum.splits)
  from ne have "?m \<in> set train_nid" by simp
  from wrap_indices_valid [OF js this] z have "- ?n \<le> ?m" "?m < ?n" by simp_all
  with int64_add_range [of ?m 1] have "- (2 ^ 63) \<le> ?m + 1" "?m + 1 < 2 ^ 63" by simp_all
  then have fits: "?n = ?m + 1" by (rule int64_add_fits)
  from l have len: "length labels = nat ?n" by (simp add: assign_length)
  with z fits show "int (length labels) = ?m + 1" by simp
  from js len show "\<exists>js. wrap_indices (length labels) train_nid = Inr js" by simp
  from \<open>?m + 1 < 2 ^ 63\<close> show "?m + 1 < 2 ^ 63" .
  from al fits show "allocator (nat (?m + 1)) = None" by simp
qed

text \<open>The label vector of a partition whose largest id plus 1 is a 64-bit integer, with
  room for the vector.\<close>

lemma build_labels_partition:
  assumes "train_nid \<noteq> []" and "\<forall>i \<in> set train_nid. 0 \<le> i" and "distinct train_nid"
    and "length sub_labels = length train_nid"
    and "Max (set train_nid) + 1 < 2 ^ 63"
    and "allocator (nat (Max (set train_nid) + 1)) = None"
  shows "\<exists>labels. build_labels allocator train_nid sub_labels = Inr labels
           \<and> (\<forall>k < length train_nid. labels ! nat (train_nid ! k) = sub_labels ! k)
           \<and> (\<forall>p < length labels. int p \<notin> set train_nid \<longrightarrow> labels ! p = 0)"
proof -
  let ?m = "Max (set train_nid)"
  let ?n = "nat (?m + 1)"
  let ?js = "map nat train_nid"
  let ?labels = "fold (\<lambda>(j, v) b. b[j := v]) (zip ?js sub_labels) (replicate ?n 0)"
  from assms(1,2) have m: "0 \<le> ?m"
    by (metis List.finite_set Max_in set_empty)
  with assms(5) have fits: "int64_add ?m 1 = ?m + 1"
    by (intro int64_add_fits) simp_all
  have bound: "0 \<le> i \<and> i < int ?n" if "i \<in> set train_nid" for i
  proof -
    from that have "i \<le> ?m" by simp
    with that assms(2) m show ?thesis by auto
  qed
  then have js: "wrap_indices ?n train_nid = Inr ?js"
    by (rule wrap_indices_nonneg)
  from assms(1,4,6) m js fits have built: "build_labels allocator train_nid sub_labels = Inr ?labels"
    by (simp add: build_labels_def np_max_eq np_zeros_def np_setitem_def broadcast_def)
  have len: "length ?labels = ?n" by (simp add: assign_length)
  from assms(2,3) have dist: "distinct ?js"
    by (auto simp add: distinct_map inj_on_def eq_nat_nat_iff)
  have l2: "?labels ! nat (train_nid ! k) = sub_labels ! k" if "k < length train_nid" for k
  proof -
    have inb: "j < length (replicate ?n (0::int))" if "j \<in> set ?js" for j
    proof -
      from that obtain i where "i \<in> set train_nid" "j = nat i" by auto
      with bound [of i] m show ?thesis by simp
    qed
    have "?labels ! (?js ! k) = sub_labels ! k"
      using dist assms(4) that inb by (intro assign_at) simp_all
    with that show ?thesis by simp
  qed
  have l3: "?labels ! p = 0" if "p < length ?labels" "int p \<notin> set train_nid" for p
  proof -
    have "p \<notin> set ?js"
    proof
      assume "p \<in> set ?js"
      then obtain i where "i \<in> set train_nid" "p = nat i" by auto
      with assms(2) that(2) show False by auto
    qed
    then have "p \<notin> fst ` set (zip ?js sub_labels)"
      by (auto dest: set_zip_leftD)
    then have "?labels ! p = replicate ?n 0 ! p" by (rule assign_elsewhere)
    with that(1) len show ?thesis by simp
  qed
  from built l2 l3 show ?thesis by blast
qed

lemma build_labels_overflow:
  assumes "train_nid \<noteq> []" and "Max (set train_nid) = 2 ^ 63 - 1"
  shows "build_labels allocator train_nid sub_labels = Inl ValueError"
proof -
  from assms(2) have "int64_add (Max (set train_nid)) 1 < 0" by (rule int64_add_overflow)
  with assms(1) show ?thesis by (simp add: build_labels_def np_max_eq np_zeros_def)
qed

text \<open>
  C9. Whenever the label vector has been built, the array of training node ids is not
  empty, and for every mini-batch whose seed node ids are among the training node ids the
  lookup \<^verbatim>\<open>labels[batch_nids]\<close> raises no IndexError and returns one label for each id;
  every such id is at most the largest training node id, which is the length of the label
  vector minus 1. With an empty array of training node ids, building the label vector
  raises ValueError.
\<close>

theorem label_lookup_in_bounds:
  assumes "build_labels allocator train_nid sub_labels = Inr labels"
    and "set batch_nids \<subseteq> set train_nid"
  shows "train_nid \<noteq> []
       \<and> (\<exists>label. index_labels labels batch_nids = Inr label \<and> length label = length batch_nids)
       \<and> (\<forall>i \<in> set batch_nids. i \<le> Max (set train_nid))
       \<and> Max (set train_nid) = int (length labels) - 1
       \<and> build_labels allocator [] sub_labels = Inl ValueError"
proof -
  note b = build_labels_Inr [OF assms(1)]
  from b(3) obtain js where js: "wrap_indices (length labels) train_nid = Inr js" by blast
  have "\<exists>ks. wrap_indices (length labels) batch_nids = Inr ks"
    using wrap_indices_valid [OF js] assms(2) by (intro wrap_indices_total) blast
  then obtain ks where ks: "wrap_indices (length labels) batch_nids = Inr ks" by blast
  then have "index_labels labels batch_nids = Inr (map (\<lambda>j. labels ! j) ks)"
    by (simp add: index_labels_def)
  moreover have "length (map (\<lambda>j. labels ! j) ks) = length batch_nids"
    using wrap_indices_length [OF ks] by simp
  moreover have "\<forall>i \<in> set batch_nids. i \<le> Max (set train_nid)"
    using assms(2) by auto
  moreover have "build_labels allocator [] sub_labels = Inl ValueError"
    by (simp add: build_labels_def np_max_def)
  ultimately show ?thesis using b(1,2) by auto
qed

theorem label_lookup_in_bounds_witness:
  "build_labels (\<lambda>n. None) [0, 2, 3] [5, 6, 7] = Inr [5, 0, 6, 7]
   \<and> set [3, 0] \<subseteq> set [0, 2, 3::int]
   \<and> index_labels [5, 0, 6, 7] [3, 0] = Inr [7, 5]
   \<and> Max (set [0, 2, 3::int]) = int (length [5, 0, 6, 7::int]) - 1
   \<and> build_labels (\<lambda>n. None) [] [5, 6, 7] = Inl ValueError"
proof -
  have built: "build_labels (\<lambda>n. None) [0, 2, 3] [5, 6, 7] = Inr [5, 0, 6, 7]" by code_simp
  have sub: "set [3, 0] \<subseteq> set [0, 2, 3::int]" by simp
  have look: "index_labels [5, 0, 6, 7] [3, 0] = Inr [7, 5]" by code_simp
  from label_lookup_in_bounds [OF built sub] look built sub show ?thesis by simp
qed

text \<open>
  C3. For a partition whose training node ids are non-negative and pairwise distinct, at
  least one, each with its label: every label vector the trainer builds has as its length
  the largest training node id plus 1, holds the \<open>k\<close>-th training label at the position
  given by the \<open>k\<close>-th training node id, and holds zero at every position that is not a
  training node id. The vector is built exactly when the largest training node id plus 1
  is still a 64-bit integer and there is room for a vector of that length; with
  \<open>2 ^ 63 - 1\<close> as the largest id the addition wraps around to a negative length, and
  \<^verbatim>\<open>np.zeros\<close> raises ValueError.
\<close>

theorem label_vector_holds_training_labels:
  assumes "train_nid \<noteq> []" and "\<forall>i \<in> set train_nid. 0 \<le> i" and "distinct train_nid"
    and "length sub_labels = length train_nid"
  shows "(\<forall>labels. build_labels allocator train_nid sub_labels = Inr labels \<longrightarrow>
            int (length labels) = Max (set train_nid) + 1
          \<and> (\<forall>k < length train_nid. labels ! nat (train_nid ! k) = sub_labels ! k)
          \<and> (\<forall>p < length labels. int p \<notin> set train_nid \<longrightarrow> labels ! p = 0))
       \<and> ((\<exists>labels. build_labels allocator train_nid sub_labels = Inr labels) \<longleftrightarrow>
            Max (set train_nid) + 1 < 2 ^ 63
          \<and> allocator (nat (Max (set train_nid) + 1)) = None)
       \<and> (Max (set train_nid) = 2 ^ 63 - 1 \<longrightarrow>
            build_labels allocator train_nid sub_labels = Inl ValueError)"
proof -
  let ?m = "Max (set train_nid)"
  have vector: "int (length labels) = ?m + 1
       \<and> (\<forall>k < length train_nid. labels ! nat (train_nid ! k) = sub_labels ! k)
       \<and> (\<forall>p < length labels. int p \<notin> set train_nid \<longrightarrow> labels ! p = 0)"
    if built: "build_labels allocator train_nid sub_labels = Inr labels" for labels
  proof -
    note b = build_labels_Inr [OF built]
    from build_labels_partition [of train_nid sub_labels allocator, OF assms b(4,5)] built
    have "(\<forall>k < length train_nid. labels ! nat (train_nid ! k) = sub_labels ! k)
        \<and> (\<forall>p < length labels. int p \<notin> set train_nid \<longrightarrow> labels ! p = 0)"
      by auto
    with b(2) show ?thesis by blast
  qed
  have fits: "?m + 1 < 2 ^ 63 \<and> allocator (nat (?m + 1)) = None"
    if "\<exists>labels. build_labels allocator train_nid sub_labels = Inr labels"
  proof -
    from that obtain labels where built: "build_labels allocator train_nid sub_labels = Inr labels"
      by blast
    from build_labels_Inr(4,5) [OF built] show ?thesis by blast
  qed
  have built: "\<exists>labels. build_labels allocator train_nid sub_labels = Inr labels"
    if "?m + 1 < 2 ^ 63 \<and> allocator (nat (?m + 1)) = None"
  proof -
    from that have "?m + 1 < 2 ^ 63" "allocator (nat (?m + 1)) = None" by simp_all
    from build_labels_partition [of train_nid sub_labels allocator, OF assms this]
    show ?thesis by blast
  qed
  have overflow: "build_labels allocator train_nid sub_labels = Inl ValueError"
    if "?m = 2 ^ 63 - 1"
    using assms(1) that by (rule build_labels_overflow)
  from vector fits built overflow show ?thesis by blast
qed

theorem label_vector_holds_training_labels_witness:
  "[0, 2, 3] \<noteq> ([]::int list) \<and> distinct [0, 2, 3::int]
   \<and> length [5, 6, 7::int] = length [0, 2, 3::int]
   \<and> build_labels (\<lambda>n. None) [0, 2, 3] [5, 6, 7] = Inr [5, 0, 6, 7]
   \<and> int (length [5, 0, 6, 7::int]) = Max (set [0, 2, 3]) + 1
   \<and> Max (set [0, 2, 3::int]) + 1 < 2 ^ 63
   \<and> build_labels (\<lambda>n. None) [9223372036854775807] [5] = Inl ValueError"
proof -
  have h: "[0, 2, 3] \<noteq> ([]::int list)" "\<forall>i \<in> set [0, 2, 3::int]. 0 \<le> i" "distinct [0, 2, 3::int]"
    "length [5, 6, 7::int] = length [0, 2, 3::int]"
    by simp_all
  have g: "[9223372036854775807] \<noteq> ([]::int list)" "\<forall>i \<in> set [9223372036854775807::int]. 0 \<le> i"
    "distinct [9223372036854775807::int]" "length [5::int] = length [9223372036854775807::int]"
    by simp_all
  have built: "build_labels (\<lambda>n. None) [0, 2, 3] [5, 6, 7] = Inr [5, 0, 6, 7]" by code_simp
  from label_vector_holds_training_labels [OF h, of "\<lambda>n. None"] built h
    label_vector_holds_training_labels [OF g, of "\<lambda>n. None"]
  show ?thesis by simp
qed

subsection \<open>The random seed\<close>

lemma establishes_right: "(\<And>a. establishes Q (k a)) \<Longrightarrow> establishes Q (and_then m k)"
  unfolding establishes_def and_then_def
  by (auto split: prod.splits sum.splits)

lemma establishes_seed_print:
  "establishes (\<lambda>out. default_generator out = Generator s 0)
     (and_then (manual_seed s) (\<lambda>_. print msg))"
  unfolding establishes_def and_then_def manual_seed_def print_def emit_def
  by (auto split: prod.splits sum.splits)

lemma establishes_init_process:
  "establishes (\<lambda>out. default_generator out = Generator rank 0)
     (init_process env rank world_size backend)"
  unfolding init_process_def
  by (intro establishes_right establishes_seed_print)

lemma reaches_manual_seed: "reaches (\<lambda>ev. ev = Manual_seed s) (manual_seed s)"
  by (auto simp add: reaches_def manual_seed_def)

lemma reaches_seed:
  "reaches (\<lambda>ev. ev = Manual_seed rank) (init_process env rank world_size backend)"
  unfolding init_process_def
  by (intro reaches_left [OF reaches_manual_seed] reaches_right only_print) simp

lemma init_process_seeds:
  assumes "run_result (init_process env rank world_size backend) out = Inr u"
  shows "default_generator (run_outside (init_process env rank world_size backend) out)
           = Generator rank 0"
  using establishes_init_process [of rank env world_size backend] assms
    run_collapse [of "init_process env rank world_size backend" out]
  unfolding establishes_def by metis

text \<open>
  C2. Whenever \<^verbatim>\<open>init_process\<close> returns, it has seeded torch's default generator with the
  rank, and with nothing else: the generator is in the state that the seed \<open>rank\<close> gives,
  whatever its state was before. So two workers of the same rank, in any two worlds, leave
  \<^verbatim>\<open>init_process\<close> with the same state of the random generator; if the two worlds are
  the same in everything else (the same inputs), they are the same altogether, and what
  runs next, the sampler included, runs from the same state.
\<close>

theorem seed_is_rank:
  assumes "run_result (init_process env1 rank world_size1 backend1) out1 = Inr u1"
    and "run_result (init_process env2 rank world_size2 backend2) out2 = Inr u2"
    and "after1 = run_outside (init_process env1 rank world_size1 backend1) out1"
    and "after2 = run_outside (init_process env2 rank world_size2 backend2) out2"
  shows "default_generator after1 = Generator rank 0
       \<and> default_generator after2 = default_generator after1
       \<and> Manual_seed rank \<in> set (run_trace (init_process env1 rank world_size1 backend1) out1)
       \<and> (\<forall>s. Manual_seed s \<in> set (run_trace (init_process env1 rank world_size1 backend1) out1)
             \<longrightarrow> s = rank)
       \<and> (ext after1 = ext after2 \<and> environ after1 = environ after2 \<and> files after1 = files after2
             \<longrightarrow> after1 = after2)"
proof -
  have "Manual_seed rank \<in> set (run_trace (init_process env1 rank world_size1 backend1) out1)"
    using reaches_run [OF reaches_seed assms(1)] by simp
  moreover have "s = rank"
    if "Manual_seed s \<in> set (run_trace (init_process env1 rank world_size1 backend1) out1)" for s
    using only_run_trace [OF only_init_process that] by (simp add: epoch_event_def)
  moreover have g1: "default_generator after1 = Generator rank 0"
    using init_process_seeds [OF assms(1)] assms(3) by simp
  moreover have g2: "default_generator after2 = Generator rank 0"
    using init_process_seeds [OF assms(2)] assms(4) by simp
  moreover have "after1 = after2"
    if "ext after1 = ext after2 \<and> environ after1 = environ after2 \<and> files after1 = files after2"
    using that g1 g2 by (intro outside.equality) simp_all
  ultimately show ?thesis by simp
qed

theorem seed_is_rank_witness:
  "run_result (init_process demo_env 1 2 ''nccl'') demo_outside = Inr ()
   \<and> run_result (init_process demo_env 1 2 ''nccl'')
        (demo_outside\<lparr>default_generator := Generator 9 100\<rparr>) = Inr ()
   \<and> default_generator (run_outside (init_process demo_env 1 2 ''nccl'') demo_outside)
        = Generator 1 0
   \<and> default_generator (run_outside (init_process demo_env 1 2 ''nccl'')
        (demo_outside\<lparr>default_generator := Generator 9 100\<rparr>)) = Generator 1 0
   \<and> Manual_seed 1 \<in> set (run_trace (init_process demo_env 1 2 ''nccl'') demo_outside)"
proof -
  have r1: "run_result (init_process demo_env 1 2 ''nccl'') demo_outside = Inr ()"
    by code_simp
  have r2: "run_result (init_process demo_env 1 2 ''nccl'')
        (demo_outside\<lparr>default_generator := Generator 9 100\<rparr>) = Inr ()"
    by code_simp
  from seed_is_rank [OF r1 r2 refl refl] r1 r2 show ?thesis by simp
qed

subsection \<open>The checkpoint directory\<close>

lemma main_setup_present:
  assumes "files out (ckpt a) \<noteq> None"
  shows "main_setup env a (out, tr)
           = (Inr (gpu_num a),
              (cuda_env out a, tr @ [Setenv ''CUDA_VISIBLE_DEVICES'' (gpu a), Path_exists (ckpt a)]))"
  using assms
  by (simp add: main_setup_def and_then_def setenv_def os_path_exists_def call_def ret_def
      cuda_env_def gpu_num_def)

lemma main_setup_absent:
  assumes "files out (ckpt a) = None"
  shows "main_setup env a (out, tr)
           = (case ext_unit env (Mkdir (ckpt a)) (cuda_env out a) of
                (Inl e, out') \<Rightarrow>
                  (Inl e, (out', tr @ [Setenv ''CUDA_VISIBLE_DEVICES'' (gpu a),
                                       Path_exists (ckpt a), Mkdir (ckpt a), Raise e]))
              | (Inr u, out') \<Rightarrow>
                  (Inr (gpu_num a),
                   (out'\<lparr>files := (files out')(ckpt a := Some Directory)\<rparr>,
                    tr @ [Setenv ''CUDA_VISIBLE_DEVICES'' (gpu a),
                          Path_exists (ckpt a), Mkdir (ckpt a)])))"
  using assms
  by (simp add: main_setup_def and_then_def setenv_def os_path_exists_def call_def ret_def
      os_mkdir_def cuda_env_def gpu_num_def split: prod.splits sum.splits)

lemma main_trace:
  "run_trace (main env a) out
     = (case main_setup env a (out, []) of
          (Inl e, (out1, tr1)) \<Rightarrow> tr1
        | (Inr n, (out1, tr1)) \<Rightarrow>
            (case ext_unit env (Spawn n) out1 of
               (Inl e, out2) \<Rightarrow> tr1 @ [Spawn n, Raise e]
             | (Inr u, out2) \<Rightarrow> tr1 @ [Spawn n]))"
  by (simp add: run_trace_def main_def and_then_def call_unit_def call_def
      split: prod.splits sum.splits)

text \<open>
  C7, as amended. Whenever the launcher spawns the workers, what it did before has
  succeeded, and in the state in which it spawns, the path given by \<^verbatim>\<open>--ckpt\<close> exists. If
  the path did not exist when the launcher started, the launcher has created it with
  \<^verbatim>\<open>os.mkdir\<close> before spawning, and it is a directory. If the path existed, directory or
  not, the launcher has left it as it was and has not called \<^verbatim>\<open>os.mkdir\<close>.
\<close>

theorem checkpoint_directory_at_spawn:
  assumes "Spawn n \<in> set (run_trace (main env a) out)"
  shows "\<exists>out1 tr1. main_setup env a (out, []) = (Inr n, (out1, tr1))
           \<and> n = gpu_num a
           \<and> files out1 (ckpt a) \<noteq> None
           \<and> (files out (ckpt a) = None \<longrightarrow>
                files out1 (ckpt a) = Some Directory
                \<and> tr1 = [Setenv ''CUDA_VISIBLE_DEVICES'' (gpu a), Path_exists (ckpt a),
                          Mkdir (ckpt a)])
           \<and> (files out (ckpt a) \<noteq> None \<longrightarrow>
                files out1 (ckpt a) = files out (ckpt a) \<and> Mkdir (ckpt a) \<notin> set tr1)
           \<and> Spawn n \<notin> set tr1
           \<and> (\<exists>rest. run_trace (main env a) out = tr1 @ Spawn n # rest)"
proof (cases "files out (ckpt a) = None")
  case True
  obtain r out' where m: "ext_unit env (Mkdir (ckpt a)) (cuda_env out a) = (r, out')"
    by (metis prod.exhaust)
  show ?thesis
  proof (cases r)
    case (Inl e)
    with assms m True show ?thesis
      by (simp add: main_trace main_setup_absent)
  next
    case (Inr u)
    let ?out1 = "out'\<lparr>files := (files out')(ckpt a := Some Directory)\<rparr>"
    let ?tr1 = "[Setenv ''CUDA_VISIBLE_DEVICES'' (gpu a), Path_exists (ckpt a), Mkdir (ckpt a)]"
    from Inr m True have s: "main_setup env a (out, []) = (Inr (gpu_num a), (?out1, ?tr1))"
      by (simp add: main_setup_absent)
    obtain r2 out2 where sp: "ext_unit env (Spawn (gpu_num a)) ?out1 = (r2, out2)"
      by (metis prod.exhaust)
    from assms s sp have n: "n = gpu_num a"
      by (cases r2) (simp_all add: main_trace)
    from s sp have "\<exists>rest. run_trace (main env a) out = ?tr1 @ Spawn (gpu_num a) # rest"
      by (cases r2) (simp_all add: main_trace)
    with s n True show ?thesis by (simp add: gpu_num_def)
  qed
next
  case False
  let ?out1 = "cuda_env out a"
  let ?tr1 = "[Setenv ''CUDA_VISIBLE_DEVICES'' (gpu a), Path_exists (ckpt a)]"
  from False have s: "main_setup env a (out, []) = (Inr (gpu_num a), (?out1, ?tr1))"
    by (simp add: main_setup_present)
  obtain r2 out2 where sp: "ext_unit env (Spawn (gpu_num a)) ?out1 = (r2, out2)"
    by (metis prod.exhaust)
  from assms s sp have n: "n = gpu_num a"
    by (cases r2) (simp_all add: main_trace)
  from s sp have "\<exists>rest. run_trace (main env a) out = ?tr1 @ Spawn (gpu_num a) # rest"
    by (cases r2) (simp_all add: main_trace)
  with s n False show ?thesis by (simp add: gpu_num_def cuda_env_def)
qed

theorem checkpoint_directory_at_spawn_witness:
  "Spawn 1 \<in> set (run_trace (main demo_env demo_args) demo_outside)
   \<and> files demo_outside (ckpt demo_args) = None
   \<and> files (run_outside (main_setup demo_env demo_args) demo_outside) (ckpt demo_args)
       = Some Directory
   \<and> run_trace (main demo_env demo_args) demo_outside
       = [Setenv ''CUDA_VISIBLE_DEVICES'' ''0'', Path_exists ''checkpoint'',
          Mkdir ''checkpoint'', Spawn 1]"
proof -
  have spawn: "Spawn 1 \<in> set (run_trace (main demo_env demo_args) demo_outside)"
    by code_simp
  have absent: "files demo_outside (ckpt demo_args) = None"
    by (simp add: demo_outside_def)
  have tr: "run_trace (main demo_env demo_args) demo_outside
       = [Setenv ''CUDA_VISIBLE_DEVICES'' ''0'', Path_exists ''checkpoint'',
          Mkdir ''checkpoint'', Spawn 1]"
    by code_simp
  from checkpoint_directory_at_spawn [OF spawn] absent
  have "files (run_outside (main_setup demo_env demo_args) demo_outside) (ckpt demo_args)
       = Some Directory"
    by (auto simp add: run_outside_def)
  with spawn absent tr show ?thesis by simp
qed

text \<open>
  C7, as stated, says that checkpoint writes always find the configured directory present.
  With \<^verbatim>\<open>--ckpt checkpoint\<close> where \<^verbatim>\<open>checkpoint\<close> is a regular file, \<^verbatim>\<open>os.path.exists\<close> is
  true, the launcher does not call \<^verbatim>\<open>os.mkdir\<close>, and it spawns the workers with no
  directory at that path.
\<close>

theorem existing_file_is_not_replaced:
  "Spawn 1 \<in> set (run_trace (main demo_env demo_args) file_outside)
   \<and> Mkdir (ckpt demo_args) \<notin> set (run_trace (main demo_env demo_args) file_outside)
   \<and> files (run_outside (main_setup demo_env demo_args) file_outside) (ckpt demo_args)
       = Some Regular_file
   \<and> files (run_outside (main_setup demo_env demo_args) file_outside) (ckpt demo_args)
       \<noteq> Some Directory"
  by code_simp

end
